theory Spec2Isabelle
  imports Complex_Main "HOL-Library.AList"
begin

section \<open>JavaScript strings\<close>

text \<open>
  A JavaScript string is modelled as a \<open>string\<close>, a list of code units; the model
  covers the strings whose code units are below 256, one \<open>char\<close> each.  The functions
  below are the \<open>String.prototype\<close> methods the program calls, under their names
  there.
\<close>

definition startsWith :: "string \<Rightarrow> string \<Rightarrow> bool" where
  "startsWith s p = (take (length p) s = p)"

definition endsWith :: "string \<Rightarrow> string \<Rightarrow> bool" where
  "endsWith s p = (length p \<le> length s \<and> drop (length s - length p) s = p)"

fun str_includes :: "string \<Rightarrow> string \<Rightarrow> bool" where
  "str_includes [] sub = (sub = [])"
| "str_includes (c # cs) sub = (startsWith (c # cs) sub \<or> str_includes cs sub)"

text \<open>The backslash, which a string literal of this theory cannot hold.\<close>

definition bs :: char where
  "bs = CHR 0x5C"

text \<open>
  Line terminators (what the regular expression \<open>.\<close> refuses) and white space (what
  \<open>\s\<close> accepts and \<open>trim\<close> removes), among the code units below 256.
\<close>

definition isLineTerminator :: "char \<Rightarrow> bool" where
  "isLineTerminator c = (c = CHR 0x0A \<or> c = CHR 0x0D)"

definition isSpace :: "char \<Rightarrow> bool" where
  "isSpace c = (c \<in> set [CHR 0x09, CHR 0x0A, CHR 0x0B, CHR 0x0C, CHR 0x0D, CHR 0x20, CHR 0xA0])"

definition trim :: "string \<Rightarrow> string" where
  "trim s = rev (dropWhile isSpace (rev (dropWhile isSpace s)))"

text \<open>\<open>s.split(c)\<close> for a one-character separator: never the empty list.\<close>

fun split :: "char \<Rightarrow> string \<Rightarrow> string list" where
  "split sep [] = [[]]"
| "split sep (c # cs) =
     (if c = sep then [] # split sep cs
      else (case split sep cs of
              [] \<Rightarrow> [[c]]
            | piece # pieces \<Rightarrow> (c # piece) # pieces))"

text \<open>\<open>toLowerCase\<close> on code units below 256: A-Z, and the Latin-1 capitals.\<close>

definition lower_char :: "char \<Rightarrow> char" where
  "lower_char c =
     (let n = (of_char c :: nat)
      in if (65 \<le> n \<and> n \<le> 90) \<or> (192 \<le> n \<and> n \<le> 222 \<and> n \<noteq> 215)
         then char_of (n + 32) else c)"

definition toLowerCase :: "string \<Rightarrow> string" where
  "toLowerCase s = map lower_char s"

text \<open>
  An optional string (\<open>None\<close> is \<open>undefined\<close> or \<open>null\<close>) is truthy when it is a
  non-empty string; \<open>a || b\<close> yields \<open>a\<close> when \<open>a\<close> is truthy.
\<close>

definition truthy :: "string option \<Rightarrow> bool" where
  "truthy v = (case v of None \<Rightarrow> False | Some s \<Rightarrow> s \<noteq> [])"

definition or_else :: "string option \<Rightarrow> string \<Rightarrow> string" where
  "or_else v d = (case v of None \<Rightarrow> d | Some s \<Rightarrow> if s \<noteq> [] then s else d)"

text \<open>
  What a JavaScript operation can throw.  \<open>OutsideModel\<close> is not an exception of the
  program: it marks regular-expression syntax outside the fragment modelled below.
\<close>

datatype js_error = TypeError | SyntaxError | SystemError | OutsideModel

section \<open>Regular expressions\<close>

text \<open>
  \<open>new RegExp(source)\<close> and \<open>regex.test(s)\<close>, for the fragment of the syntax the
  match-pattern compiler can emit: literal characters, identity escapes, \<open>.\<close>, a
  negated character class of single characters, groups, the quantifiers \<open>?\<close>, \<open>*\<close>
  and \<open>+\<close> (also lazy), \<open>^\<close> as the first and \<open>$\<close> as the last item.  No flag is
  set, so \<open>.\<close> refuses line terminators and \<open>$\<close> holds at the end of the input only.
\<close>

datatype rx =
    Never
  | Eps
  | Lit char
  | Dot
  | NoneOf "char list"
  | Cat rx rx
  | Alt rx rx
  | Opt rx
  | Star rx
  | Plus rx

record RegExp =
  anchored_start :: bool
  body :: rx
  anchored_end :: bool

subsection \<open>Matching, by derivatives\<close>

fun nullable :: "rx \<Rightarrow> bool" where
  "nullable Never = False"
| "nullable Eps = True"
| "nullable (Lit c) = False"
| "nullable Dot = False"
| "nullable (NoneOf cs) = False"
| "nullable (Cat r s) = (nullable r \<and> nullable s)"
| "nullable (Alt r s) = (nullable r \<or> nullable s)"
| "nullable (Opt r) = True"
| "nullable (Star r) = True"
| "nullable (Plus r) = nullable r"

fun deriv :: "char \<Rightarrow> rx \<Rightarrow> rx" where
  "deriv a Never = Never"
| "deriv a Eps = Never"
| "deriv a (Lit c) = (if a = c then Eps else Never)"
| "deriv a Dot = (if isLineTerminator a then Never else Eps)"
| "deriv a (NoneOf cs) = (if a \<in> set cs then Never else Eps)"
| "deriv a (Cat r s) =
     (if nullable r then Alt (Cat (deriv a r) s) (deriv a s) else Cat (deriv a r) s)"
| "deriv a (Alt r s) = Alt (deriv a r) (deriv a s)"
| "deriv a (Opt r) = deriv a r"
| "deriv a (Star r) = Cat (deriv a r) (Star r)"
| "deriv a (Plus r) = Cat (deriv a r) (Star r)"

text \<open>The whole of \<open>s\<close> matches \<open>r\<close>; a prefix of \<open>s\<close> matches \<open>r\<close>.\<close>

fun matches_whole :: "rx \<Rightarrow> string \<Rightarrow> bool" where
  "matches_whole r [] = nullable r"
| "matches_whole r (c # cs) = matches_whole (deriv c r) cs"

fun matches_prefix :: "rx \<Rightarrow> string \<Rightarrow> bool" where
  "matches_prefix r [] = nullable r"
| "matches_prefix r (c # cs) = (nullable r \<or> matches_prefix (deriv c r) cs)"

text \<open>A match that starts at the first position of \<open>s\<close>.\<close>

definition matches_here :: "RegExp \<Rightarrow> string \<Rightarrow> bool" where
  "matches_here re s =
     (if anchored_end re then matches_whole (body re) s else matches_prefix (body re) s)"

fun matches_somewhere :: "RegExp \<Rightarrow> string \<Rightarrow> bool" where
  "matches_somewhere re [] = matches_here re []"
| "matches_somewhere re (c # cs) = (matches_here re (c # cs) \<or> matches_somewhere re cs)"

text \<open>\<open>regex.test(s)\<close>.\<close>

definition test :: "RegExp \<Rightarrow> string \<Rightarrow> bool" where
  "test re s = (if anchored_start re then matches_here re s else matches_somewhere re s)"

subsection \<open>The constructor: lexing\<close>

datatype token =
    TChar char
  | TDot
  | TNoneOf "char list"
  | TOpen
  | TClose
  | TStar
  | TPlus
  | TQuest
  | TCaret
  | TDollar
  | TBad

text \<open>
  The syntax characters: after a backslash each stands for itself, and so does \<open>/\<close>.
\<close>

definition syntaxChars :: "char list" where
  "syntaxChars = ''^$.*+?()[]{}|/'' @ [bs]"

text \<open>
  The lexer reads one character at a time.  Its state says what has been read of an
  item that is not finished: a backslash, \<open>[\<close>, or a negated class with its
  members so far (and a backslash inside it).  A group opens with \<open>(\<close> or with
  \<open>(?:\<close>.  Anything outside the fragment is \<open>TBad\<close>, and ends the lexing.
\<close>

datatype lex_state =
    Top
  | Escape
  | ClassOpen
  | InClass "char list"
  | ClassEscape "char list"

fun lex :: "lex_state \<Rightarrow> string \<Rightarrow> token list" where
  "lex Top [] = []"
| "lex st [] = [TBad]"
| "lex Top (c # cs) =
     (if c = bs then lex Escape cs
      else if c = CHR ''('' then
        (case cs of
           [] \<Rightarrow> [TOpen]
         | q # cs' \<Rightarrow>
             if q = CHR ''?'' then
               (case cs' of
                  [] \<Rightarrow> [TBad]
                | k # cs'' \<Rightarrow> if k = CHR '':'' then TOpen # lex Top cs'' else [TBad])
             else TOpen # lex Top cs)
      else if c = CHR '')'' then TClose # lex Top cs
      else if c = CHR ''['' then lex ClassOpen cs
      else if c = CHR ''*'' then TStar # lex Top cs
      else if c = CHR ''+'' then TPlus # lex Top cs
      else if c = CHR ''?'' then TQuest # lex Top cs
      else if c = CHR ''.'' then TDot # lex Top cs
      else if c = CHR ''^'' then TCaret # lex Top cs
      else if c = CHR ''$'' then TDollar # lex Top cs
      else if c \<in> set ''{}|]'' then [TBad]
      else TChar c # lex Top cs)"
| "lex Escape (c # cs) =
     (if c \<in> set syntaxChars then TChar c # lex Top cs else [TBad])"
| "lex ClassOpen (c # cs) =
     (if c = CHR ''^'' then lex (InClass []) cs else [TBad])"
| "lex (InClass ms) (c # cs) =
     (if c = CHR '']'' then TNoneOf ms # lex Top cs
      else if c = bs then lex (ClassEscape ms) cs
      else if c \<in> set ''-['' then [TBad]
      else lex (InClass (ms @ [c])) cs)"
| "lex (ClassEscape ms) (c # cs) =
     (if c \<in> set syntaxChars then lex (InClass (ms @ [c])) cs else [TBad])"

subsection \<open>The constructor: parsing\<close>

text \<open>
  The items read so far at the current nesting depth (last first), the same for each
  group still open, and whether the last item can take a quantifier: nothing precedes
  (\<open>NoAtom\<close>), an atom does (\<open>Atom\<close>), or an atom that already has its quantifier
  (\<open>Quantified\<close>: only a \<open>?\<close> may follow, which makes it lazy).
\<close>

datatype quantifiable = NoAtom | Atom | Quantified

definition sequence :: "rx list \<Rightarrow> rx" where
  "sequence items = foldr Cat items Eps"

fun quantify :: "(rx \<Rightarrow> rx) \<Rightarrow> rx list \<Rightarrow> quantifiable \<Rightarrow> rx list option" where
  "quantify q (x # items) Atom = Some (q x # items)"
| "quantify q items st = None"

fun parse :: "token list \<Rightarrow> rx list \<Rightarrow> rx list list \<Rightarrow> quantifiable \<Rightarrow> js_error + rx" where
  "parse [] cur outer st =
     (if outer = [] then Inr (sequence (rev cur)) else Inl SyntaxError)"
| "parse (TChar c # ts) cur outer st = parse ts (Lit c # cur) outer Atom"
| "parse (TDot # ts) cur outer st = parse ts (Dot # cur) outer Atom"
| "parse (TNoneOf ms # ts) cur outer st = parse ts (NoneOf ms # cur) outer Atom"
| "parse (TOpen # ts) cur outer st = parse ts [] (cur # outer) NoAtom"
| "parse (TClose # ts) cur outer st =
     (case outer of
        [] \<Rightarrow> Inl SyntaxError
      | up # outer' \<Rightarrow> parse ts (sequence (rev cur) # up) outer' Atom)"
| "parse (TStar # ts) cur outer st =
     (case quantify Star cur st of
        None \<Rightarrow> Inl SyntaxError
      | Some cur' \<Rightarrow> parse ts cur' outer Quantified)"
| "parse (TPlus # ts) cur outer st =
     (case quantify Plus cur st of
        None \<Rightarrow> Inl SyntaxError
      | Some cur' \<Rightarrow> parse ts cur' outer Quantified)"
| "parse (TQuest # ts) cur outer st =
     (if st = Quantified then parse ts cur outer NoAtom
      else (case quantify Opt cur st of
              None \<Rightarrow> Inl SyntaxError
            | Some cur' \<Rightarrow> parse ts cur' outer Quantified))"
| "parse (TCaret # ts) cur outer st = Inl OutsideModel"
| "parse (TDollar # ts) cur outer st = Inl OutsideModel"
| "parse (TBad # ts) cur outer st = Inl OutsideModel"

text \<open>\<open>new RegExp(source)\<close>: \<open>Inl SyntaxError\<close> when the constructor throws.\<close>

definition RegExp_new :: "string \<Rightarrow> js_error + RegExp" where
  "RegExp_new source =
     (let ts = lex Top source;
          a = (ts \<noteq> [] \<and> hd ts = TCaret);
          ts1 = (if a then tl ts else ts);
          e = (ts1 \<noteq> [] \<and> last ts1 = TDollar);
          ts2 = (if e then butlast ts1 else ts1)
      in (case parse ts2 [] [] NoAtom of
            Inl err \<Rightarrow> Inl err
          | Inr r \<Rightarrow> Inr \<lparr>anchored_start = a, body = r, anchored_end = e\<rparr>))"

subsection \<open>What a regular expression denotes\<close>

text \<open>
  The strings an expression stands for, by the usual reading of the operators; the
  matcher above is checked against it below.
\<close>

inductive_set repeat :: "string set \<Rightarrow> string set" for A :: "string set" where
  none: "[] \<in> repeat A"
| more: "u \<in> A \<Longrightarrow> v \<in> repeat A \<Longrightarrow> u @ v \<in> repeat A"

definition joined :: "string set \<Rightarrow> string set \<Rightarrow> string set" where
  "joined A B = {u @ v | u v. u \<in> A \<and> v \<in> B}"

fun denotes :: "rx \<Rightarrow> string set" where
  "denotes Never = {}"
| "denotes Eps = {[]}"
| "denotes (Lit c) = {[c]}"
| "denotes Dot = {[a] | a. \<not> isLineTerminator a}"
| "denotes (NoneOf cs) = {[a] | a. a \<notin> set cs}"
| "denotes (Cat r s) = joined (denotes r) (denotes s)"
| "denotes (Alt r s) = denotes r \<union> denotes s"
| "denotes (Opt r) = insert [] (denotes r)"
| "denotes (Star r) = repeat (denotes r)"
| "denotes (Plus r) = joined (denotes r) (repeat (denotes r))"

section \<open>The match-pattern compiler (userscript-runner)\<close>

text \<open>
  \<open>s.replace(/[.+?^${}()|[\]\\]/g, '\\$&')\<close>: a backslash before each of these
  characters.
\<close>

definition escaped_chars :: "char list" where
  "escaped_chars = ''.+?^${}()|[]'' @ [bs]"

definition escapeRegex :: "string \<Rightarrow> string" where
  "escapeRegex s = concat (map (\<lambda>c. if c \<in> set escaped_chars then [bs, c] else [c]) s)"

text \<open>\<open>s.replace(/\*/g, '.*')\<close>.\<close>

definition replaceStars :: "string \<Rightarrow> string" where
  "replaceStars s = concat (map (\<lambda>c. if c = CHR ''*'' then ''.*'' else [c]) s)"

text \<open>
  The groups of
  \<open>pattern.match(/^(?<scheme>\*|https?):\/\/(?<host>[^\/]+)(?<path>\/.*)?$/)\<close>, or
  \<open>None\<close> when there is no match.  The scheme is \<open>*\<close>, \<open>http\<close> or \<open>https\<close>; the
  host is the non-empty run of characters up to the first slash; the path, if there is
  one, is the rest, from that slash to the end, and holds no line terminator.
\<close>

definition match_scheme :: "string \<Rightarrow> (string \<times> string) option" where
  "match_scheme p =
     (if startsWith p ''*://'' then Some (''*'', drop 4 p)
      else if startsWith p ''https://'' then Some (''https'', drop 8 p)
      else if startsWith p ''http://'' then Some (''http'', drop 7 p)
      else None)"

definition match_groups :: "string \<Rightarrow> (string \<times> string \<times> string option) option" where
  "match_groups p =
     (case match_scheme p of
        None \<Rightarrow> None
      | Some (scheme, rest) \<Rightarrow>
          (let host = takeWhile (\<lambda>c. c \<noteq> CHR ''/'') rest;
               pathPattern = dropWhile (\<lambda>c. c \<noteq> CHR ''/'') rest
           in if host = [] then None
              else if pathPattern = [] then Some (scheme, host, None)
              else if list_ex isLineTerminator pathPattern then None
              else Some (scheme, host, Some pathPattern)))"

text \<open>The literal \<open>/^https?:\/\/.*/\<close>.\<close>

definition all_urls_regex :: RegExp where
  "all_urls_regex =
     \<lparr>anchored_start = True,
      body = sequence [Lit CHR ''h'', Lit CHR ''t'', Lit CHR ''t'', Lit CHR ''p'',
                       Opt (Lit CHR ''s''), Lit CHR '':'', Lit CHR ''/'', Lit CHR ''/'',
                       Star Dot],
      anchored_end = False\<rparr>"

text \<open>
  The host part of the regular expression, or \<open>None\<close> where the compiler returns
  \<open>null\<close> for a wildcard inside the host.
\<close>

definition hostRegex_of :: "string \<Rightarrow> string option" where
  "hostRegex_of host =
     (let hostRegex = escapeRegex host
      in if startsWith hostRegex (''*'' @ [bs] @ ''.'') then
           Some (''(?:[^'' @ [bs] @ ''/.]+'' @ [bs] @ ''.)?'' @ drop 3 hostRegex)
         else if hostRegex = ''*'' then Some (''[^'' @ [bs] @ ''/]+'')
         else if str_includes hostRegex ''*'' then None
         else Some hostRegex)"

definition pathRegex_of :: "string option \<Rightarrow> string" where
  "pathRegex_of pathPattern =
     (case pathPattern of
        Some p \<Rightarrow> replaceStars (escapeRegex p)
      | None \<Rightarrow> ''(/.*)?'')"

text \<open>
  The body of the \<open>try\<close> block of \<open>matchPatternToRegExp\<close>: \<open>Inl e\<close> when it throws
  \<open>e\<close>, \<open>Inr None\<close> when it returns \<open>null\<close>.
\<close>

definition matchPatternToRegExp_try :: "string \<Rightarrow> js_error + RegExp option" where
  "matchPatternToRegExp_try pattern =
     (case match_groups pattern of
        None \<Rightarrow> Inr None
      | Some (scheme, host, pathPattern) \<Rightarrow>
          (let schemeRegex = (if scheme = ''*'' then ''https?'' else scheme)
           in (case hostRegex_of host of
                 None \<Rightarrow> Inr None
               | Some hostRegex \<Rightarrow>
                   (let pathRegex = pathRegex_of pathPattern;
                        finalRegexString =
                          ''^'' @ schemeRegex @ ''://'' @ hostRegex @ pathRegex @ ''$''
                    in (case RegExp_new finalRegexString of
                          Inl e \<Rightarrow> Inl e
                        | Inr re \<Rightarrow> Inr (Some re))))))"

text \<open>
  \<open>matchPatternToRegExp\<close>: the special case before the \<open>try\<close>, and the \<open>catch\<close>
  that logs whatever was thrown and returns \<open>null\<close>.
\<close>

definition matchPatternToRegExp :: "string \<Rightarrow> js_error + RegExp option" where
  "matchPatternToRegExp pattern =
     (if pattern = ''<all_urls>'' then Inr (Some all_urls_regex)
      else (case matchPatternToRegExp_try pattern of
              Inl e \<Rightarrow> Inr None
            | Inr r \<Rightarrow> Inr r))"

section \<open>URL matching (userscript-runner)\<close>

text \<open>
  The fields \<open>urlMatches\<close> reads of a parsed \<open>URL\<close>.  The parser itself is Node's
  \<open>URL\<close> class: \<open>urlMatches\<close> takes it as the argument \<open>new_URL\<close>, which returns
  \<open>Inl TypeError\<close> where the constructor throws.
\<close>

record URL =
  protocol :: string
  origin :: string
  pathname :: string
  search :: string

text \<open>
  The loop over the patterns: the first pattern that compiles and matches returns
  \<open>true\<close>.
\<close>

fun matches_any :: "string list \<Rightarrow> string \<Rightarrow> js_error + bool" where
  "matches_any [] urlToMatch = Inr False"
| "matches_any (pattern # patterns) urlToMatch =
     (case matchPatternToRegExp pattern of
        Inl e \<Rightarrow> Inl e
      | Inr None \<Rightarrow> matches_any patterns urlToMatch
      | Inr (Some regex) \<Rightarrow>
          if test regex urlToMatch then Inr True else matches_any patterns urlToMatch)"

definition urlMatches :: "(string \<Rightarrow> js_error + URL) \<Rightarrow> string list \<Rightarrow> string \<Rightarrow> js_error + bool" where
  "urlMatches new_URL patterns urlString =
     (case new_URL urlString of
        Inl e \<Rightarrow> Inr False
      | Inr parsedUrl \<Rightarrow>
          if protocol parsedUrl \<notin> set [''http:'', ''https:''] then Inr False
          else matches_any patterns (origin parsedUrl @ pathname parsedUrl @ search parsedUrl))"

text \<open>
  Node's \<open>URL\<close> class on the strings used as examples below: what it yields for each
  address listed, and the \<open>TypeError\<close> it throws for \<open>not a url\<close>.  (The examples
  use no other string; the table answers those like the last.)
\<close>

definition example_URL :: "string \<Rightarrow> js_error + URL" where
  "example_URL u =
     (case map_of
        [(''https://example.com/'',
            \<lparr>protocol = ''https:'', origin = ''https://example.com'', pathname = ''/'', search = ''''\<rparr>),
         (''https://a.example.com/'',
            \<lparr>protocol = ''https:'', origin = ''https://a.example.com'', pathname = ''/'', search = ''''\<rparr>),
         (''https://a.b.example.com/'',
            \<lparr>protocol = ''https:'', origin = ''https://a.b.example.com'', pathname = ''/'', search = ''''\<rparr>),
         (''https://example.com.evil.com/'',
            \<lparr>protocol = ''https:'', origin = ''https://example.com.evil.com'', pathname = ''/'', search = ''''\<rparr>),
         (''http://x.y/index.html?q=1#top'',
            \<lparr>protocol = ''http:'', origin = ''http://x.y'', pathname = ''/index.html'', search = ''?q=1''\<rparr>),
         (''ftp://a.b/'',
            \<lparr>protocol = ''ftp:'', origin = ''ftp://a.b'', pathname = ''/'', search = ''''\<rparr>),
         (''file:///tmp/page.html'',
            \<lparr>protocol = ''file:'', origin = ''null'', pathname = ''/tmp/page.html'', search = ''''\<rparr>)]
        u of
        Some parsed \<Rightarrow> Inr parsed
      | None \<Rightarrow> Inl TypeError)"

text \<open>
  The tokens of a host or path character once escaped: itself, except that \<open>*\<close>,
  which is not escaped, is the quantifier in a host and becomes \<open>.*\<close> in a path.  A
  plain token is one the parser has a rule for.
\<close>

definition host_token :: "char \<Rightarrow> token" where
  "host_token c = (if c = CHR ''*'' then TStar else TChar c)"

definition path_tokens :: "char \<Rightarrow> token list" where
  "path_tokens c = (if c = CHR ''*'' then [TDot, TStar] else [TChar c])"

definition plain_token :: "token \<Rightarrow> bool" where
  "plain_token t = (t \<noteq> TCaret \<and> t \<noteq> TDollar \<and> t \<noteq> TBad)"

text \<open>A piece of source text that the lexer reads as these tokens, whatever follows.\<close>

definition lexes_to :: "string \<Rightarrow> token list \<Rightarrow> bool" where
  "lexes_to s ts = (\<forall>rest. lex Top (s @ rest) = ts @ lex Top rest)"

section \<open>The metadata block (userscript-runner)\<close>

text \<open>
  The names \<open>Object.prototype\<close> defines.  \<open>metadata\<close> and \<open>scriptsToInject\<close> are
  object literals, so a lookup of one of these names that finds no own property finds
  the inherited one, which is truthy and has no \<open>push\<close>.
\<close>

definition objectPrototypeKeys :: "string list" where
  "objectPrototypeKeys =
     [''constructor'', ''__defineGetter__'', ''__defineSetter__'', ''hasOwnProperty'',
      ''__lookupGetter__'', ''__lookupSetter__'', ''isPrototypeOf'',
      ''propertyIsEnumerable'', ''toString'', ''valueOf'', ''__proto__'',
      ''toLocaleString'']"

text \<open>
  Where \<open>//\<close>, white space and the word \<open>w\<close> start at the head of \<open>s\<close>: the text
  after the word.  \<open>find_marker\<close> finds the first such place in \<open>s\<close>, and returns
  the text before it and the text after it.
\<close>

definition marker_here :: "string \<Rightarrow> string \<Rightarrow> string option" where
  "marker_here w s =
     (if startsWith s ''//'' then
        (let r = dropWhile isSpace (drop 2 s)
         in if startsWith r w then Some (drop (length w) r) else None)
      else None)"

fun find_marker :: "string \<Rightarrow> string \<Rightarrow> (string \<times> string) option" where
  "find_marker w [] = None"
| "find_marker w (c # cs) =
     (case marker_here w (c # cs) of
        Some after \<Rightarrow> Some ([], after)
      | None \<Rightarrow>
          (case find_marker w cs of
             None \<Rightarrow> None
           | Some (before, after) \<Rightarrow> Some (c # before, after)))"

text \<open>
  The first group of
  \<open>scriptContent.match(/\/\/\s*==UserScript==([\s\S]*?)\/\/\s*==\/UserScript==/)\<close>:
  the text between the first opening marker and the first closing marker after it.
\<close>

definition metaBlock :: "string \<Rightarrow> string option" where
  "metaBlock scriptContent =
     (case find_marker ''==UserScript=='' scriptContent of
        None \<Rightarrow> None
      | Some (before, after) \<Rightarrow>
          (case find_marker ''==/UserScript=='' after of
             None \<Rightarrow> None
           | Some (block, rest) \<Rightarrow> Some block))"

text \<open>
  The groups of \<open>line.match(/^\/\/\s*@(\S+)\s+(.*)/)\<close>: the key is the run of
  characters that are not white space after \<open>@\<close>, white space must follow it, and the
  value is what follows that white space, up to a line terminator.
\<close>

definition directive :: "string \<Rightarrow> (string \<times> string) option" where
  "directive line =
     (if startsWith line ''//'' then
        (case dropWhile isSpace (drop 2 line) of
           [] \<Rightarrow> None
         | c # r \<Rightarrow>
             if c \<noteq> CHR ''@'' then None
             else (let key = takeWhile (\<lambda>x. \<not> isSpace x) r;
                       r' = dropWhile (\<lambda>x. \<not> isSpace x) r
                   in if key = [] \<or> r' = [] then None
                      else Some (key, takeWhile (\<lambda>x. \<not> isLineTerminator x) (dropWhile isSpace r'))))
      else None)"

text \<open>
  \<open>if (!metadata[key]) metadata[key] = []; metadata[key].push(trimmedValue)\<close> on the
  own properties of \<open>metadata\<close>, in insertion order.
\<close>

definition push_directive :: "(string \<times> string list) list \<Rightarrow> string \<Rightarrow> string \<Rightarrow> js_error + (string \<times> string list) list" where
  "push_directive props key v =
     (case map_of props key of
        Some vs \<Rightarrow> Inr (AList.update key (vs @ [v]) props)
      | None \<Rightarrow>
          if key \<in> set objectPrototypeKeys then Inl TypeError
          else Inr (AList.update key [v] props))"

fun read_lines :: "string list \<Rightarrow> (string \<times> string list) list \<Rightarrow> js_error + (string \<times> string list) list" where
  "read_lines [] props = Inr props"
| "read_lines (line # lines) props =
     (case directive (trim line) of
        None \<Rightarrow> read_lines lines props
      | Some (key, v) \<Rightarrow>
          (case push_directive props key (trim v) of
             Inl e \<Rightarrow> Inl e
           | Inr props' \<Rightarrow> read_lines lines props'))"

text \<open>
  The object \<open>parseMetadata\<close> returns: the directives read (every key with its values
  in order), and the three properties set after the loop.
\<close>

record metadata =
  directives :: "(string \<times> string list) list"
  md_match :: "string list"
  md_runAt :: string
  md_name :: "string list"

definition validRunAt :: "string list" where
  "validRunAt = [''document-start'', ''document-end'', ''document-idle'']"

definition parseMetadata :: "string \<Rightarrow> js_error + metadata" where
  "parseMetadata scriptContent =
     (case metaBlock scriptContent of
        None \<Rightarrow>
          Inr \<lparr>directives = [], md_match = [], md_runAt = ''document-start'',
               md_name = [''Unnamed Script'']\<rparr>
      | Some block \<Rightarrow>
          (case read_lines (split CHR 0x0A (trim block)) [] of
             Inl e \<Rightarrow> Inl e
           | Inr props \<Rightarrow>
               (let matches = (case map_of props ''match'' of None \<Rightarrow> [] | Some ms \<Rightarrow> ms);
                    runAt0 = or_else (case map_of props ''run-at'' of
                                        None \<Rightarrow> None
                                      | Some [] \<Rightarrow> None
                                      | Some (r # rs) \<Rightarrow> Some (toLowerCase r))
                                     ''document-start'';
                    runAt = (if runAt0 \<in> set validRunAt then runAt0 else ''document-start'');
                    names = (case map_of props ''name'' of
                               None \<Rightarrow> [''Unnamed Script'']
                             | Some [] \<Rightarrow> [''Unnamed Script'']
                             | Some ns \<Rightarrow> ns)
                in Inr \<lparr>directives = props, md_match = matches, md_runAt = runAt,
                        md_name = names\<rparr>)))"

section \<open>The catalog (userscript-runner)\<close>

record script =
  path :: string
  name :: string
  content :: string
  matchPatterns :: "string list"
  runAt :: string
  meta :: metadata

text \<open>
  The file system as \<open>loadUserscripts\<close> sees it: what \<open>fs.readdir\<close> yields for the
  directory, and what \<open>fs.readFile\<close> yields for each path.
\<close>

datatype fs_error = ENOENT | EACCES | EOTHER

record file_system =
  readdir :: "fs_error + string list"
  readFile :: "string \<Rightarrow> fs_error + string"

text \<open>\<open>path.join(directory, file)\<close>, for a directory name that needs no normalising.\<close>

definition path_join :: "string \<Rightarrow> string \<Rightarrow> string" where
  "path_join directory file = directory @ ''/'' @ file"

text \<open>
  One round of the loop over the files: the catalog so far, with the script of this
  file added unless the file is skipped.
\<close>

definition load_file :: "file_system \<Rightarrow> string \<Rightarrow> string \<Rightarrow> script list \<Rightarrow> script list" where
  "load_file fs directory file scripts =
     (if \<not> endsWith file ''.user.js'' then scripts
      else (let fullPath = path_join directory file
            in (case readFile fs fullPath of
                  Inl err \<Rightarrow> scripts
                | Inr text \<Rightarrow>
                    (case parseMetadata text of
                       Inl e \<Rightarrow> scripts
                     | Inr md \<Rightarrow>
                         if md_match md = [] then scripts
                         else scripts @
                           [\<lparr>path = fullPath,
                             name = (case md_name md of
                                       [] \<Rightarrow> file
                                     | n # ns \<Rightarrow> if n = [] then file else n),
                             content = text,
                             matchPatterns = md_match md,
                             runAt = md_runAt md,
                             meta = md\<rparr>]))))"

definition loadUserscripts :: "file_system \<Rightarrow> string \<Rightarrow> js_error + script list" where
  "loadUserscripts fs directory =
     (case readdir fs of
        Inl ENOENT \<Rightarrow> Inr []
      | Inl EACCES \<Rightarrow> Inr []
      | Inl EOTHER \<Rightarrow> Inl SystemError
      | Inr files \<Rightarrow> Inr (foldl (\<lambda>scripts file. load_file fs directory file scripts) [] files))"

section \<open>The injection plan (main.js)\<close>

text \<open>The three arrays of \<open>scriptsToInject\<close>.\<close>

record plan =
  document_start :: "script list"
  document_end :: "script list"
  document_idle :: "script list"

definition empty_plan :: plan where
  "empty_plan = \<lparr>document_start = [], document_end = [], document_idle = []\<rparr>"

text \<open>
  One round of the loop over the catalog.  \<open>scriptsToInject[script.runAt]\<close> is an
  array for the three phases, an inherited property without \<open>push\<close> for a name of
  \<open>Object.prototype\<close>, and \<open>undefined\<close> otherwise (the script is skipped).
\<close>

definition schedule :: "(string \<Rightarrow> js_error + URL) \<Rightarrow> string \<Rightarrow> script \<Rightarrow> plan \<Rightarrow> js_error + plan" where
  "schedule new_URL targetUrl s pl =
     (case urlMatches new_URL (matchPatterns s) targetUrl of
        Inl e \<Rightarrow> Inl e
      | Inr False \<Rightarrow> Inr pl
      | Inr True \<Rightarrow>
          if runAt s = ''document-start'' then Inr (pl\<lparr>document_start := document_start pl @ [s]\<rparr>)
          else if runAt s = ''document-end'' then Inr (pl\<lparr>document_end := document_end pl @ [s]\<rparr>)
          else if runAt s = ''document-idle'' then Inr (pl\<lparr>document_idle := document_idle pl @ [s]\<rparr>)
          else if runAt s \<in> set objectPrototypeKeys then Inl TypeError
          else Inr pl)"

fun schedule_all :: "(string \<Rightarrow> js_error + URL) \<Rightarrow> string \<Rightarrow> script list \<Rightarrow> plan \<Rightarrow> js_error + plan" where
  "schedule_all new_URL targetUrl [] pl = Inr pl"
| "schedule_all new_URL targetUrl (s # ss) pl =
     (case schedule new_URL targetUrl s pl of
        Inl e \<Rightarrow> Inl e
      | Inr pl' \<Rightarrow> schedule_all new_URL targetUrl ss pl')"

definition scriptsToInject :: "(string \<Rightarrow> js_error + URL) \<Rightarrow> script list \<Rightarrow> string \<Rightarrow> js_error + plan" where
  "scriptsToInject new_URL allUserscripts targetUrl =
     schedule_all new_URL targetUrl allUserscripts empty_plan"

text \<open>The phase of a plan that belongs to a \<open>run-at\<close> value.\<close>

definition phase :: "plan \<Rightarrow> string \<Rightarrow> script list" where
  "phase pl r =
     (if r = ''document-start'' then document_start pl
      else if r = ''document-end'' then document_end pl
      else if r = ''document-idle'' then document_idle pl
      else [])"

text \<open>
  The scripts of a list that match an address and have a given \<open>run-at\<close> value, in
  the order of the list.
\<close>

definition hits :: "(string \<Rightarrow> js_error + URL) \<Rightarrow> string \<Rightarrow> string \<Rightarrow> script list \<Rightarrow> script list" where
  "hits new_URL u r ss =
     filter (\<lambda>s. urlMatches new_URL (matchPatterns s) u = Inr True \<and> runAt s = r) ss"

section \<open>The storage object gmStorage (main.js)\<close>

text \<open>Values as the host receives them from the page or from \<open>JSON.parse\<close>.\<close>

datatype jsval =
    JUndefined
  | JNull
  | JBool bool
  | JNum int
  | JStr string
  | JArr "jsval list"
  | JObj "(string \<times> jsval) list"

text \<open>
  \<open>gmStorage\<close> is an ordinary object (\<open>let gmStorage = {}\<close>, or the object
  \<open>JSON.parse\<close> returned): its own properties in insertion order, and its prototype.
  The prototype starts as \<open>Object.prototype\<close>.  An assignment to the key
  \<open>__proto__\<close> that finds no own property of that name reaches the accessor inherited
  from \<open>Object.prototype\<close>, which replaces the prototype by an object or by \<open>null\<close>
  and ignores every other value.
\<close>

datatype prototype = ObjectPrototype | NullPrototype | ValuePrototype jsval

record js_object =
  own :: "(string \<times> jsval) list"
  proto :: prototype

definition empty_object :: js_object where
  "empty_object = \<lparr>own = [], proto = ObjectPrototype\<rparr>"

definition has_own :: "js_object \<Rightarrow> string \<Rightarrow> bool" where
  "has_own obj k = (map_of (own obj) k \<noteq> None)"

definition isObjectValue :: "jsval \<Rightarrow> bool" where
  "isObjectValue v = (case v of JArr xs \<Rightarrow> True | JObj kvs \<Rightarrow> True | _ \<Rightarrow> False)"

text \<open>The own property keys (other than indices) of a value that is the prototype.\<close>

definition value_keys :: "jsval \<Rightarrow> string list" where
  "value_keys v = (case v of JObj kvs \<Rightarrow> map fst kvs | _ \<Rightarrow> [])"

text \<open>
  Whether \<open>gmStorage.hasOwnProperty\<close> is the built-in function: an own property of
  that name is a stored value, never a function; otherwise the prototype chain is
  searched, and the built-in stands at \<open>Object.prototype\<close>.
\<close>

definition hasOwnProperty_callable :: "js_object \<Rightarrow> bool" where
  "hasOwnProperty_callable obj =
     (\<not> has_own obj ''hasOwnProperty'' \<and>
      (case proto obj of
         ObjectPrototype \<Rightarrow> True
       | NullPrototype \<Rightarrow> False
       | ValuePrototype v \<Rightarrow> ''hasOwnProperty'' \<notin> set (value_keys v)))"

text \<open>
  Whether an assignment to \<open>__proto__\<close> finds the accessor of \<open>Object.prototype\<close>:
  not past a \<open>null\<close> prototype, and not past a prototype with a data property of that
  name.
\<close>

definition proto_setter_reachable :: "js_object \<Rightarrow> bool" where
  "proto_setter_reachable obj =
     (case proto obj of
        ObjectPrototype \<Rightarrow> True
      | NullPrototype \<Rightarrow> False
      | ValuePrototype v \<Rightarrow> ''__proto__'' \<notin> set (value_keys v))"

text \<open>\<open>obj[key] = value\<close>.\<close>

definition set_property :: "js_object \<Rightarrow> string \<Rightarrow> jsval \<Rightarrow> js_object" where
  "set_property obj k v =
     (if has_own obj k then obj\<lparr>own := AList.update k v (own obj)\<rparr>
      else if k = ''__proto__'' \<and> proto_setter_reachable obj then
        (if isObjectValue v then obj\<lparr>proto := ValuePrototype v\<rparr>
         else if v = JNull then obj\<lparr>proto := NullPrototype\<rparr>
         else obj)
      else obj\<lparr>own := AList.update k v (own obj)\<rparr>)"

text \<open>\<open>delete obj[key]\<close>.\<close>

definition delete_property :: "js_object \<Rightarrow> string \<Rightarrow> js_object" where
  "delete_property obj k = obj\<lparr>own := AList.delete k (own obj)\<rparr>"

text \<open>\<open>obj[key]\<close> for an own property.\<close>

definition get_own :: "js_object \<Rightarrow> string \<Rightarrow> jsval" where
  "get_own obj k = (case map_of (own obj) k of Some v \<Rightarrow> v | None \<Rightarrow> JUndefined)"

text \<open>
  \<open>Object.keys(obj)\<close>: the own keys that are array indices (canonical decimal
  numerals below \<open>2^32 - 1\<close>) in ascending numeric order, then the other keys in
  insertion order.
\<close>

definition isDigit :: "char \<Rightarrow> bool" where
  "isDigit c = (48 \<le> (of_char c :: nat) \<and> (of_char c :: nat) \<le> 57)"

definition decimal :: "string \<Rightarrow> nat" where
  "decimal s = foldl (\<lambda>n c. 10 * n + (of_char c - 48)) 0 s"

definition isArrayIndex :: "string \<Rightarrow> bool" where
  "isArrayIndex k =
     (k \<noteq> [] \<and> list_all isDigit k \<and> (k = ''0'' \<or> hd k \<noteq> CHR ''0'') \<and>
      decimal k < 4294967295)"

definition Object_keys :: "js_object \<Rightarrow> string list" where
  "Object_keys obj =
     (let ks = map fst (own obj)
      in sort_key decimal (filter isArrayIndex ks) @ filter (\<lambda>k. \<not> isArrayIndex k) ks)"

section \<open>The storage bridge (main.js)\<close>

text \<open>
  The host's storage state: the object in memory, and the file.  \<open>writes\<close> lists,
  oldest first, the property lists handed to \<open>fs.writeFile\<close> (every attempt);
  \<open>disk\<close> is that of the last write that succeeded.
\<close>

record host_state =
  gmStorage :: js_object
  writes :: "(string \<times> jsval) list list"
  disk :: "(string \<times> jsval) list option"

definition initial_host :: host_state where
  "initial_host = \<lparr>gmStorage = empty_object, writes = [], disk = None\<rparr>"

text \<open>
  \<open>saveGmStorage\<close>: one \<open>fs.writeFile\<close> of the whole object; a failure is caught and
  logged.  \<open>write_ok\<close> says whether the file system accepts the write.
\<close>

definition saveGmStorage :: "bool \<Rightarrow> host_state \<Rightarrow> host_state" where
  "saveGmStorage write_ok h =
     h\<lparr>writes := writes h @ [own (gmStorage h)],
       disk := (if write_ok then Some (own (gmStorage h)) else disk h)\<rparr>"

text \<open>
  A bridge function yields \<open>Inl e\<close> when it throws \<open>e\<close> (the page's call is
  rejected), and otherwise what it returns together with the new state.
\<close>

definition gmSetValueBridge :: "bool \<Rightarrow> string \<Rightarrow> jsval \<Rightarrow> host_state \<Rightarrow> js_error + unit \<times> host_state" where
  "gmSetValueBridge write_ok k v h =
     Inr ((), saveGmStorage write_ok (h\<lparr>gmStorage := set_property (gmStorage h) k v\<rparr>))"

definition gmGetValueBridge :: "string \<Rightarrow> jsval \<Rightarrow> host_state \<Rightarrow> js_error + jsval \<times> host_state" where
  "gmGetValueBridge k defaultValue h =
     (if \<not> hasOwnProperty_callable (gmStorage h) then Inl TypeError
      else if has_own (gmStorage h) k then Inr (get_own (gmStorage h) k, h)
      else Inr (defaultValue, h))"

definition gmDeleteValueBridge :: "bool \<Rightarrow> string \<Rightarrow> host_state \<Rightarrow> js_error + unit \<times> host_state" where
  "gmDeleteValueBridge write_ok k h =
     (if \<not> hasOwnProperty_callable (gmStorage h) then Inl TypeError
      else if has_own (gmStorage h) k then
        Inr ((), saveGmStorage write_ok (h\<lparr>gmStorage := delete_property (gmStorage h) k\<rparr>))
      else Inr ((), h))"

definition gmListValuesBridge :: "host_state \<Rightarrow> js_error + string list \<times> host_state" where
  "gmListValuesBridge h = Inr (Object_keys (gmStorage h), h)"

text \<open>
  A sequence of storage calls, as a script issues them one after the other; a call
  that throws leaves the state as it was.
\<close>

datatype storage_call = SetValue string jsval | DeleteValue string

definition storage_step :: "bool \<Rightarrow> host_state \<Rightarrow> storage_call \<Rightarrow> host_state" where
  "storage_step write_ok h c =
     (case c of
        SetValue k v \<Rightarrow>
          (case gmSetValueBridge write_ok k v h of Inl e \<Rightarrow> h | Inr (u, h') \<Rightarrow> h')
      | DeleteValue k \<Rightarrow>
          (case gmDeleteValueBridge write_ok k h of Inl e \<Rightarrow> h | Inr (u, h') \<Rightarrow> h'))"

definition storage_run :: "bool \<Rightarrow> host_state \<Rightarrow> storage_call list \<Rightarrow> host_state" where
  "storage_run write_ok h cs = foldl (storage_step write_ok) h cs"

section \<open>GM_xmlhttpRequest: the host's side (main.js)\<close>

text \<open>
  A JavaScript number, without the rounding of floating point and the sign of zero.
\<close>

datatype number = Finite rat | PlusInfinity | MinusInfinity | NaN

text \<open>
  The value of the property \<open>timeout\<close> of \<open>details\<close>.  The bridge reads it twice:
  \<open>if (timeout)\<close> asks whether it is truthy, and \<open>setTimeout\<close> converts it to a
  number (\<open>after *= 1\<close>).  \<open>Number n\<close> is the number \<open>n\<close>.  \<open>Other b n\<close> is any
  value that is not a number, with its truthiness \<open>b\<close> and the number \<open>n\<close> it
  converts to: \<open>Other False NaN\<close> is \<open>undefined\<close>, the value of a missing property,
  and \<open>Other True (Finite 5000)\<close> is the string \<open>'5000'\<close>.  A value that has no
  conversion to a number (a \<open>BigInt\<close>, a \<open>Symbol\<close>) is not represented.
\<close>

datatype timeout_value = Number number | Other bool number

fun truthy_number :: "number \<Rightarrow> bool" where
  "truthy_number (Finite q) = (q \<noteq> 0)"
| "truthy_number PlusInfinity = True"
| "truthy_number MinusInfinity = True"
| "truthy_number NaN = False"

fun truthy_timeout :: "timeout_value \<Rightarrow> bool" where
  "truthy_timeout (Number n) = truthy_number n"
| "truthy_timeout (Other b n) = b"

fun toNumber :: "timeout_value \<Rightarrow> number" where
  "toNumber (Number n) = n"
| "toNumber (Other b n) = n"

text \<open>
  The properties of \<open>details\<close> that decide which events a request produces.
  \<open>url\<close> is \<open>None\<close> when the property is missing or not a string; \<open>handlers\<close>
  names the properties of \<open>details\<close> that are functions of the caller (\<open>onload\<close>,
  \<open>onerror\<close>, \<open>onabort\<close>, \<open>ontimeout\<close>).
\<close>

record xhr_details =
  url :: "string option"
  timeout :: timeout_value
  responseType :: "string option"
  overrideMimeType :: "string option"
  handlers :: "string list"

text \<open>The object an event carries to the page.\<close>

record response_data =
  status :: int
  statusText :: string
  rd_responseType :: "string option"
  rd_contentType :: "string option"
  response :: jsval
  responseText :: jsval

text \<open>
  \<open>const contentTypeHeader = response.headers.get('content-type') || '';\<close>
  \<open>const effectiveContentType = overrideMimeType || contentTypeHeader;\<close>
\<close>

definition effectiveContentType :: "string option \<Rightarrow> string option \<Rightarrow> string" where
  "effectiveContentType mimeType header = or_else mimeType (or_else header [])"

definition knownResponseTypes :: "string list" where
  "knownResponseTypes = [''json'', ''text'', ''arraybuffer'', ''blob'']"

text \<open>
  \<open>let effectiveResponseType = [...].includes(responseType) ? responseType : 'text';\<close>
  \<open>if (!responseType && effectiveContentType.includes('json')) effectiveResponseType = 'json';\<close>
\<close>

definition effectiveResponseType :: "string option \<Rightarrow> string \<Rightarrow> string" where
  "effectiveResponseType requested ect =
     (let t0 = (case requested of
                  None \<Rightarrow> ''text''
                | Some r \<Rightarrow> if r \<in> set knownResponseTypes then r else ''text'')
      in if \<not> truthy requested \<and> str_includes ect ''json'' then ''json'' else t0)"

text \<open>
  The network and the page, as the bridge meets them during one request: after how
  many milliseconds \<open>fetch\<close> settles if nothing aborts it; whether it then rejects;
  the response's status and \<open>content-type\<close> header; what reading the body yields for
  an effective response type (\<open>Inl\<close> when the read throws); which of the timer and
  \<open>fetch\<close> the event loop serves first when both are due at once; and whether the page
  is closed.
\<close>

record network =
  latency :: nat
  rejects :: bool
  resp_status :: int
  resp_statusText :: string
  content_type :: "string option"
  read_body :: "string \<Rightarrow> js_error + jsval"
  timer_first :: bool
  page_closed :: bool

text \<open>
  The delay \<open>setTimeout\<close> of Node uses, in milliseconds: 1 where the number is not
  within the range from 1 to \<open>2^31 - 1\<close> (which holds of \<open>NaN\<close>), and the number
  truncated to a whole number otherwise.
\<close>

fun timer_delay :: "number \<Rightarrow> nat" where
  "timer_delay (Finite q) = (if 1 \<le> q \<and> q \<le> 2147483647 then nat \<lfloor>q\<rfloor> else 1)"
| "timer_delay PlusInfinity = 1"
| "timer_delay MinusInfinity = 1"
| "timer_delay NaN = 1"

text \<open>
  Whether the timer's callback runs before \<open>fetch\<close> settles: the timer is armed
  (\<open>if (timeout)\<close>) and its delay ends first.
\<close>

definition timer_fires :: "xhr_details \<Rightarrow> network \<Rightarrow> bool" where
  "timer_fires details net =
     (truthy_timeout (timeout details) \<and>
      (let delay = timer_delay (toNumber (timeout details))
       in delay < latency net \<or> (delay = latency net \<and> timer_first net)))"

definition failure_data :: "string \<Rightarrow> response_data" where
  "failure_data txt =
     \<lparr>status = 0, statusText = txt, rd_responseType = None, rd_contentType = None,
      response = JUndefined, responseText = JUndefined\<rparr>"

text \<open>
  \<open>sendCallback\<close>: one \<open>page.evaluate\<close> that calls the page's handler, unless the
  page is closed.
\<close>

definition sendCallback :: "network \<Rightarrow> nat \<Rightarrow> string \<Rightarrow> response_data \<Rightarrow> (nat \<times> string \<times> response_data) list" where
  "sendCallback net requestId eventName responseData =
     (if page_closed net then [] else [(requestId, eventName, responseData)])"

text \<open>
  \<open>GM_xmlhttpRequest_bridge\<close>: the calls of the page's handler it causes, in order.
  The timer is armed when \<open>timeout\<close> is truthy.  If it fires before \<open>fetch\<close>
  settles, its callback aborts the request and sends \<open>ontimeout\<close>; \<open>fetch\<close> then
  rejects with an \<open>AbortError\<close>, and the \<open>catch\<close> block sends \<open>onabort\<close>.
\<close>

definition GM_xmlhttpRequest_bridge :: "nat \<Rightarrow> xhr_details \<Rightarrow> network \<Rightarrow> (nat \<times> string \<times> response_data) list" where
  "GM_xmlhttpRequest_bridge requestId details net =
     (if timer_fires details net then
        sendCallback net requestId ''ontimeout'' (failure_data ''Timeout'') @
        sendCallback net requestId ''onabort'' (failure_data ''Aborted'')
      else if rejects net then
        sendCallback net requestId ''onerror'' (failure_data ''Network Error'')
      else
        (let ect = effectiveContentType (overrideMimeType details) (content_type net);
             ert = effectiveResponseType (responseType details) ect
         in (case read_body net ert of
               Inl e \<Rightarrow> sendCallback net requestId ''onerror'' (failure_data ''Network Error'')
             | Inr b \<Rightarrow>
                 sendCallback net requestId ''onload''
                   \<lparr>status = resp_status net, statusText = resp_statusText net,
                    rd_responseType = Some ert, rd_contentType = Some ect,
                    response = b,
                    responseText = (if ert = ''text'' then b else JUndefined)\<rparr>)))"

section \<open>GM_xmlhttpRequest: the page's side (the polyfill)\<close>

text \<open>
  The polyfill's state: \<open>requestMap\<close> (a \<open>Map\<close>, in insertion order) and
  \<open>requestIdCounter\<close>; and what it has done: the calls of \<open>GM_xmlhttpRequest_bridge\<close>
  it made, the calls of the caller's callbacks it made (request identifier, name of the
  callback property, argument), and the console lines of the functions below (their
  fixed text), each oldest first.  A callback is taken to return without a call of the
  polyfill for the request it is called for.
\<close>

record page =
  requestMap :: "(nat \<times> xhr_details) list"
  requestIdCounter :: nat
  bridge_calls :: "(nat \<times> xhr_details) list"
  delivered :: "(nat \<times> string \<times> response_data) list"
  console :: "string list"

definition initial_page :: page where
  "initial_page =
     \<lparr>requestMap = [], requestIdCounter = 0, bridge_calls = [], delivered = [], console = []\<rparr>"

definition terminalEvents :: "string list" where
  "terminalEvents = [''onload'', ''onerror'', ''onabort'', ''ontimeout'']"

text \<open>
  Whether \<open>atob(s)\<close> returns: with the ASCII white space removed, and one or two
  final \<open>=\<close> removed if the length is a multiple of four, the length is not one more
  than a multiple of four and every character is of the base64 alphabet.
\<close>

definition isBase64Char :: "char \<Rightarrow> bool" where
  "isBase64Char c =
     (let n = (of_char c :: nat)
      in (65 \<le> n \<and> n \<le> 90) \<or> (97 \<le> n \<and> n \<le> 122) \<or> (48 \<le> n \<and> n \<le> 57) \<or>
         c = CHR ''+'' \<or> c = CHR ''/'')"

definition atob_ok :: "string \<Rightarrow> bool" where
  "atob_ok s =
     (let d = filter (\<lambda>c. c \<notin> set [CHR 0x09, CHR 0x0A, CHR 0x0C, CHR 0x0D, CHR 0x20]) s;
          d' = (if length d mod 4 = 0 then
                  (if endsWith d ''=='' then take (length d - 2) d
                   else if endsWith d ''='' then take (length d - 1) d
                   else d)
                else d)
      in length d' mod 4 \<noteq> 1 \<and> list_all isBase64Char d')"

text \<open>A call of the callback \<open>details[cb]\<close>, if that property is a function.\<close>

definition call_back :: "xhr_details \<Rightarrow> nat \<Rightarrow> string \<Rightarrow> response_data \<Rightarrow> page \<Rightarrow> page" where
  "call_back details requestId cb arg pg =
     (if cb \<in> set (handlers details)
      then pg\<lparr>delivered := delivered pg @ [(requestId, cb, arg)]\<rparr>
      else pg)"

text \<open>
  \<open>GM_xmlhttpRequest_callback_handler\<close>.  A binary body arrives as base64 text; where
  the decoding succeeds the decoded body is passed on (the model keeps the text).
\<close>

definition isString :: "jsval \<Rightarrow> bool" where
  "isString v = (case v of JStr s \<Rightarrow> True | _ \<Rightarrow> False)"

text \<open>
  The body is base64 text for a binary response type; and \<open>atob\<close> throws on it.
\<close>

definition binary_text :: "response_data \<Rightarrow> bool" where
  "binary_text responseData =
     (rd_responseType responseData \<in> set [Some ''blob'', Some ''arraybuffer''] \<and>
      isString (response responseData))"

definition undecodable :: "response_data \<Rightarrow> bool" where
  "undecodable responseData =
     (binary_text responseData \<and>
      (case response responseData of JStr s \<Rightarrow> \<not> atob_ok s | _ \<Rightarrow> False))"

text \<open>
  \<open>if (responseData._responseType === 'text' && typeof responseData.response === 'string')\<close>
  \<open>responseData.responseText = responseData.response;\<close>
\<close>

definition with_responseText :: "response_data \<Rightarrow> response_data" where
  "with_responseText responseData =
     (if rd_responseType responseData = Some ''text'' \<and> isString (response responseData)
      then responseData\<lparr>responseText := response responseData\<rparr>
      else responseData)"

definition GM_xmlhttpRequest_callback_handler :: "nat \<Rightarrow> string \<Rightarrow> response_data \<Rightarrow> page \<Rightarrow> page" where
  "GM_xmlhttpRequest_callback_handler requestId eventName responseData pg =
     (case map_of (requestMap pg) requestId of
        None \<Rightarrow> pg\<lparr>console := console pg @ [''warn: Received callback for unknown GM_xmlhttpRequest ID'']\<rparr>
      | Some details \<Rightarrow>
          (let pg1 = pg\<lparr>console := console pg @ [''log: GM_xmlhttpRequest Callback'']\<rparr>
           in if undecodable responseData then
                (let pg2 = call_back details requestId ''onerror''
                             (responseData\<lparr>status := 0, statusText := ''Decoding Error''\<rparr>)
                             (pg1\<lparr>console := console pg1 @ [''error: Error decoding base64 response in browser'']\<rparr>)
                 in pg2\<lparr>requestMap := AList.delete requestId (requestMap pg2)\<rparr>)
              else
                (let pg1' = (if binary_text responseData
                             then pg1\<lparr>console := console pg1 @ [''log: Decoded base64 response'']\<rparr>
                             else pg1);
                     pg2 = call_back details requestId eventName (with_responseText responseData) pg1'
                 in if eventName \<in> set terminalEvents
                    then pg2\<lparr>requestMap := AList.delete requestId (requestMap pg2)\<rparr>
                    else pg2)))"

text \<open>What \<open>GM_xmlhttpRequest\<close> returns: an object with the method \<open>abort\<close>.\<close>

datatype abort_handle = AbortHandle nat | InvalidRequestHandle nat

definition GM_xmlhttpRequest :: "xhr_details \<Rightarrow> page \<Rightarrow> abort_handle \<times> page" where
  "GM_xmlhttpRequest details pg =
     (let requestId = requestIdCounter pg + 1;
          pg1 = pg\<lparr>requestIdCounter := requestId,
                   requestMap := AList.update requestId details (requestMap pg),
                   console := console pg @ [''log: GM_xmlhttpRequest Called'']\<rparr>
      in if \<not> truthy (url details) then
           (let pg2 = call_back details requestId ''onerror'' (failure_data ''Invalid Request'')
                        (pg1\<lparr>console := console pg1 @ [''error: Invalid or missing url'']\<rparr>)
            in (InvalidRequestHandle requestId,
                pg2\<lparr>requestMap := AList.delete requestId (requestMap pg2)\<rparr>))
         else
           (AbortHandle requestId,
            pg1\<lparr>bridge_calls := bridge_calls pg1 @ [(requestId, details)]\<rparr>))"

text \<open>The method \<open>abort\<close> of the returned object.\<close>

definition abort :: "abort_handle \<Rightarrow> page \<Rightarrow> page" where
  "abort h pg =
     (case h of
        InvalidRequestHandle requestId \<Rightarrow>
          pg\<lparr>console := console pg @ [''log: Abort called on invalid request'']\<rparr>
      | AbortHandle requestId \<Rightarrow>
          (let pg1 = pg\<lparr>console := console pg @ [''log: GM_xmlhttpRequest Abort Called'']\<rparr>
           in if map_of (requestMap pg1) requestId \<noteq> None
              then pg1\<lparr>console := console pg1 @
                     [''warn: Abort handle used, but requires GM_xmlhttpRequest_abort_bridge for full effect.'']\<rparr>
              else pg1))"

text \<open>
  The \<open>catch\<close> of the bridge call: what the page does when the call of
  \<open>GM_xmlhttpRequest_bridge\<close> for a request is itself rejected.
\<close>

definition bridge_rejected :: "nat \<Rightarrow> page \<Rightarrow> page" where
  "bridge_rejected requestId pg =
     (case map_of (bridge_calls pg) requestId of
        None \<Rightarrow> pg
      | Some details \<Rightarrow>
          (let pg1 = call_back details requestId ''onerror'' (failure_data ''Bridge Error'')
                       (pg\<lparr>console := console pg @ [''error: GM_xmlhttpRequest Bridge Error'']\<rparr>)
           in pg1\<lparr>requestMap := AList.delete requestId (requestMap pg1)\<rparr>))"

text \<open>
  What can happen on the page, one thing at a time: a script issues a request, a script
  uses an abort handle, the host calls the handler, a bridge call is rejected.
\<close>

datatype page_event =
    Issue xhr_details
  | UseAbort abort_handle
  | Handler nat string response_data
  | Rejected nat

definition page_step :: "page \<Rightarrow> page_event \<Rightarrow> page" where
  "page_step pg ev =
     (case ev of
        Issue details \<Rightarrow> snd (GM_xmlhttpRequest details pg)
      | UseAbort h \<Rightarrow> abort h pg
      | Handler requestId eventName responseData \<Rightarrow>
          GM_xmlhttpRequest_callback_handler requestId eventName responseData pg
      | Rejected requestId \<Rightarrow> bridge_rejected requestId pg)"

definition page_run :: "page \<Rightarrow> page_event list \<Rightarrow> page" where
  "page_run pg evs = foldl page_step pg evs"

text \<open>The handler calls the host sends for a request, as events on the page.\<close>

definition host_events :: "nat \<Rightarrow> xhr_details \<Rightarrow> network \<Rightarrow> page_event list" where
  "host_events requestId details net =
     map (\<lambda>(i, eventName, responseData). Handler i eventName responseData)
       (GM_xmlhttpRequest_bridge requestId details net)"

text \<open>The callbacks called for one request: their names, oldest first.\<close>

definition events_of :: "nat \<Rightarrow> page \<Rightarrow> string list" where
  "events_of requestId pg =
     map (\<lambda>(i, cb, arg). cb) (filter (\<lambda>(i, cb, arg). i = requestId) (delivered pg))"

section \<open>Example scripts\<close>

text \<open>
  Four script files and a note in the directory \<open>scripts\<close>: a script with two
  patterns that both match \<open>https://example.com/\<close>, a script whose only pattern is
  invalid, a script with no \<open>@match\<close> line, and a script with the same invalid
  pattern and a directive named \<open>constructor\<close>.
\<close>

definition unlines :: "string list \<Rightarrow> string" where
  "unlines ls = concat (map (\<lambda>l. l @ [CHR 0x0A]) ls)"

definition two_patterns_script :: string where
  "two_patterns_script =
     unlines [''// ==UserScript=='',
              ''// @name        Two'',
              ''// @match       *://example.com/*'',
              ''// @match       https://*.example.com/*'',
              ''// @run-at      document-end'',
              ''// ==/UserScript=='',
              ''console.log(1);'']"

definition invalid_pattern_script :: string where
  "invalid_pattern_script =
     unlines [''// ==UserScript=='',
              ''// @name        Ftp'',
              ''// @match       ftp://x/*'',
              ''// ==/UserScript=='',
              ''console.log(2);'']"

definition no_match_script :: string where
  "no_match_script =
     unlines [''// ==UserScript=='',
              ''// @name        None'',
              ''// @run-at      document-idle'',
              ''// ==/UserScript=='',
              ''console.log(3);'']"

definition shadowing_script :: string where
  "shadowing_script =
     unlines [''// ==UserScript=='',
              ''// @name        Ctor'',
              ''// @match       ftp://x/*'',
              ''// @constructor x'',
              ''// ==/UserScript=='',
              ''console.log(4);'']"

definition example_fs :: file_system where
  "example_fs =
     \<lparr>readdir = Inr [''two.user.js'', ''ftp.user.js'', ''none.user.js'', ''ctor.user.js'',
                     ''notes.txt''],
      readFile = (\<lambda>p. case map_of [(''scripts/two.user.js'', two_patterns_script),
                                     (''scripts/ftp.user.js'', invalid_pattern_script),
                                     (''scripts/none.user.js'', no_match_script),
                                     (''scripts/ctor.user.js'', shadowing_script),
                                     (''scripts/notes.txt'', ''to do'')] p of
                         Some text \<Rightarrow> Inr text
                       | None \<Rightarrow> Inl ENOENT)\<rparr>"

definition example_catalog :: "script list" where
  "example_catalog =
     (case loadUserscripts example_fs ''scripts'' of Inr scripts \<Rightarrow> scripts | Inl e \<Rightarrow> [])"

text \<open>
  Two states of the page that differ at most in their console lines.
\<close>

definition same_but_console :: "page \<Rightarrow> page \<Rightarrow> bool" where
  "same_but_console pg pg' =
     (requestMap pg = requestMap pg' \<and> requestIdCounter pg = requestIdCounter pg' \<and>
      bridge_calls pg = bridge_calls pg' \<and> delivered pg = delivered pg')"




text \<open>
  Example requests and networks: a request with all four callbacks and no timeout, the
  same with a timeout of 10, of 0 and of -1 milliseconds, a server that answers after
  50 milliseconds, and a network on which \<open>fetch\<close> rejects at once.
\<close>

definition plain_request :: xhr_details where
  "plain_request =
     \<lparr>url = Some ''https://example.com/data'', timeout = Other False NaN, responseType = None,
      overrideMimeType = None,
      handlers = [''onload'', ''onerror'', ''onabort'', ''ontimeout'']\<rparr>"

definition slow_server :: network where
  "slow_server =
     \<lparr>latency = 50, rejects = False, resp_status = 200, resp_statusText = ''OK'',
      content_type = Some ''text/plain'', read_body = (\<lambda>t. Inr (JStr ''hello'')),
      timer_first = True, page_closed = False\<rparr>"



definition negative_timeout_request :: xhr_details where
  "negative_timeout_request = plain_request\<lparr>timeout := Number (Finite (- 1))\<rparr>"

definition failing_network :: network where
  "failing_network = slow_server\<lparr>latency := 0, rejects := True\<rparr>"


section \<open>Theorems: the effective response type\<close>

lemma effectiveContentType_cases:
  "effectiveContentType mimeType header =
     (if truthy mimeType then the mimeType
      else if truthy header then the header else [])"
  by (simp add: effectiveContentType_def or_else_def truthy_def split: option.splits)

text \<open>
  Claim C4, as the code has it.  The bridge materialises a response under the requested
  type when that is one of \<open>json\<close>, \<open>text\<close>, \<open>arraybuffer\<close>, \<open>blob\<close>; otherwise
  under \<open>json\<close> when no type was requested (the property is absent or the empty
  string) and the effective content type contains \<open>json\<close>, where the effective content
  type is \<open>overrideMimeType\<close> if that is a non-empty string and the response's
  \<open>content-type\<close> header if not; otherwise under \<open>text\<close>.
\<close>

theorem effectiveResponseType_resolution:
  "effectiveResponseType requested (effectiveContentType mimeType header) =
     (if requested \<in> Some ` set knownResponseTypes then the requested
      else if \<not> truthy requested \<and>
              str_includes (if truthy mimeType then the mimeType
                            else if truthy header then the header else []) ''json''
           then ''json''
      else ''text'')"
  unfolding effectiveContentType_cases
  by (auto simp: effectiveResponseType_def truthy_def knownResponseTypes_def Let_def
           split: option.splits)

theorem effectiveResponseType_resolution_witness:
  "effectiveResponseType (Some ''blob'') (effectiveContentType None (Some ''application/json'')) = ''blob''
   \<and> effectiveResponseType None (effectiveContentType (Some ''text/plain'') (Some ''application/json'')) = ''text''
   \<and> effectiveResponseType (Some []) (effectiveContentType None (Some ''application/json'')) = ''json''"
  using effectiveResponseType_resolution [of "Some ''blob''" None "Some ''application/json''"]
        effectiveResponseType_resolution [of None "Some ''text/plain''" "Some ''application/json''"]
        effectiveResponseType_resolution [of "Some []" None "Some ''application/json''"]
  by (simp add: knownResponseTypes_def truthy_def startsWith_def)

text \<open>
  Claim C4 as the specification words it fails: a requested type outside the four, with
  a \<open>content-type\<close> header that contains \<open>json\<close>, gives \<open>text\<close>, not \<open>json\<close>.
\<close>

theorem effectiveResponseType_unknown_type_counterexample:
  "Some ''document'' \<notin> Some ` set knownResponseTypes
   \<and> str_includes ''application/json'' ''json''
   \<and> effectiveResponseType (Some ''document'')
        (effectiveContentType None (Some ''application/json'')) = ''text''"
  by (simp add: knownResponseTypes_def effectiveResponseType_def effectiveContentType_def
        or_else_def truthy_def startsWith_def)

section \<open>Theorems: the matcher against what an expression denotes\<close>

text \<open>
  The matcher agrees with the usual reading of the operators: an expression is nullable
  when it denotes the empty string, its derivative by \<open>a\<close> denotes the strings that
  follow a leading \<open>a\<close>, a whole string matches when the expression denotes it, and a
  prefix matches when the expression denotes some prefix.
\<close>

lemma nullable_denotes: "nullable r \<longleftrightarrow> [] \<in> denotes r"
  by (induction r) (auto simp: joined_def intro: repeat.none)

lemma joined_Cons:
  "a # w \<in> joined A B \<longleftrightarrow>
     (\<exists>u v. w = u @ v \<and> a # u \<in> A \<and> v \<in> B) \<or> ([] \<in> A \<and> a # w \<in> B)"
proof
  assume "a # w \<in> joined A B"
  then obtain u v where uv: "a # w = u @ v" "u \<in> A" "v \<in> B"
    unfolding joined_def by blast
  show "(\<exists>u v. w = u @ v \<and> a # u \<in> A \<and> v \<in> B) \<or> ([] \<in> A \<and> a # w \<in> B)"
  proof (cases u)
    case Nil
    with uv show ?thesis by simp
  next
    case (Cons b u')
    with uv have "w = u' @ v" "a # u' \<in> A" by simp_all
    with uv(3) show ?thesis by blast
  qed
next
  assume "(\<exists>u v. w = u @ v \<and> a # u \<in> A \<and> v \<in> B) \<or> ([] \<in> A \<and> a # w \<in> B)"
  then show "a # w \<in> joined A B"
  proof
    assume "\<exists>u v. w = u @ v \<and> a # u \<in> A \<and> v \<in> B"
    then obtain u v where "w = u @ v" "a # u \<in> A" "v \<in> B" by blast
    then have "a # w = (a # u) @ v \<and> a # u \<in> A \<and> v \<in> B" by simp
    then show ?thesis unfolding joined_def by blast
  next
    assume "[] \<in> A \<and> a # w \<in> B"
    then have "a # w = [] @ (a # w) \<and> [] \<in> A \<and> a # w \<in> B" by simp
    then show ?thesis unfolding joined_def by blast
  qed
qed

lemma repeat_Cons_only:
  "x \<in> repeat A \<Longrightarrow> x = a # w \<Longrightarrow> \<exists>u v. w = u @ v \<and> a # u \<in> A \<and> v \<in> repeat A"
proof (induction arbitrary: a w rule: repeat.induct)
  case none
  then show ?case by simp
next
  case (more u v)
  show ?case
  proof (cases u)
    case Nil
    with more.prems have "v = a # w" by simp
    then show ?thesis by (rule more.IH)
  next
    case (Cons b u')
    with more.prems have "w = u' @ v" "b = a" by simp_all
    with Cons more.hyps show ?thesis by blast
  qed
qed

lemma repeat_Cons:
  "a # w \<in> repeat A \<longleftrightarrow> (\<exists>u v. w = u @ v \<and> a # u \<in> A \<and> v \<in> repeat A)"
proof
  assume "a # w \<in> repeat A"
  then show "\<exists>u v. w = u @ v \<and> a # u \<in> A \<and> v \<in> repeat A"
    by (rule repeat_Cons_only) simp
next
  assume "\<exists>u v. w = u @ v \<and> a # u \<in> A \<and> v \<in> repeat A"
  then obtain u v where uv: "w = u @ v" "a # u \<in> A" "v \<in> repeat A" by blast
  from uv(2,3) have "(a # u) @ v \<in> repeat A" by (rule repeat.more)
  with uv(1) show "a # w \<in> repeat A" by simp
qed

lemma deriv_denotes: "w \<in> denotes (deriv a r) \<longleftrightarrow> a # w \<in> denotes r"
proof (induction r arbitrary: w)
  case (Cat r s)
  then show ?case
    by (simp add: joined_Cons nullable_denotes) (auto simp: joined_def)
next
  case (Star r)
  then show ?case
    by (simp add: repeat_Cons) (auto simp: joined_def)
next
  case (Plus r)
  then show ?case
    by (simp add: joined_Cons repeat_Cons nullable_denotes) (auto simp: joined_def)
qed auto

lemma matches_whole_denotes: "matches_whole r s \<longleftrightarrow> s \<in> denotes r"
  by (induction s arbitrary: r) (simp_all add: nullable_denotes deriv_denotes)

lemma matches_prefix_denotes:
  "matches_prefix r s \<longleftrightarrow> (\<exists>u v. s = u @ v \<and> u \<in> denotes r)"
proof (induction s arbitrary: r)
  case Nil
  then show ?case by (simp add: nullable_denotes)
next
  case (Cons c cs)
  note IH = Cons.IH
  show ?case
  proof
    assume "matches_prefix r (c # cs)"
    then have "nullable r \<or> matches_prefix (deriv c r) cs" by simp
    then show "\<exists>u v. c # cs = u @ v \<and> u \<in> denotes r"
    proof
      assume "nullable r"
      then have "c # cs = [] @ (c # cs) \<and> [] \<in> denotes r" by (simp add: nullable_denotes)
      then show ?thesis by blast
    next
      assume "matches_prefix (deriv c r) cs"
      then obtain u v where "cs = u @ v" "u \<in> denotes (deriv c r)"
        using IH by blast
      then have "c # cs = (c # u) @ v \<and> c # u \<in> denotes r" by (simp add: deriv_denotes)
      then show ?thesis by blast
    qed
  next
    assume "\<exists>u v. c # cs = u @ v \<and> u \<in> denotes r"
    then obtain u v where uv: "c # cs = u @ v" "u \<in> denotes r" by blast
    show "matches_prefix r (c # cs)"
    proof (cases u)
      case Nil
      with uv(2) have "nullable r" by (simp add: nullable_denotes)
      then show ?thesis by simp
    next
      case (Cons b u')
      with uv have "cs = u' @ v" "u' \<in> denotes (deriv c r)" by (simp_all add: deriv_denotes)
      then have "matches_prefix (deriv c r) cs" using IH by blast
      then show ?thesis by simp
    qed
  qed
qed

section \<open>Theorems: the storage bridge\<close>

text \<open>
  While \<open>gmStorage.hasOwnProperty\<close> is the built-in function, the bridge behaves as a
  key-value store on every key but \<open>__proto__\<close> and \<open>hasOwnProperty\<close>: a value set is
  the value read, a key deleted reads as the default, and the keys listed are the keys
  held.
\<close>

lemma set_then_get:
  assumes "hasOwnProperty_callable (gmStorage h)"
    and "k \<noteq> ''hasOwnProperty''" and "k \<noteq> ''__proto__''"
  shows "\<exists>h'. gmSetValueBridge w k v h = Inr ((), h') \<and> gmGetValueBridge k d h' = Inr (v, h')"
  using assms
  by (auto simp: gmSetValueBridge_def gmGetValueBridge_def saveGmStorage_def set_property_def
      hasOwnProperty_callable_def has_own_def get_own_def update_conv')

lemma delete_then_get:
  assumes "hasOwnProperty_callable (gmStorage h)"
  shows "\<exists>h'. gmDeleteValueBridge w k h = Inr ((), h') \<and> gmGetValueBridge k d h' = Inr (d, h')"
  using assms
  by (auto simp: gmDeleteValueBridge_def gmGetValueBridge_def saveGmStorage_def
      delete_property_def hasOwnProperty_callable_def has_own_def get_own_def delete_conv')

lemma Object_keys_set: "set (Object_keys obj) = fst ` set (own obj)"
  by (auto simp: Object_keys_def Let_def)

lemma list_values_are_own_keys:
  "\<exists>ks. gmListValuesBridge h = Inr (ks, h) \<and> set ks = {k. has_own (gmStorage h) k}"
  by (auto simp: gmListValuesBridge_def Object_keys_set has_own_def map_of_eq_None_iff)

lemma delete_absent_key:
  assumes "\<not> has_own (gmStorage h) k"
  shows "gmDeleteValueBridge w k h = Inl TypeError \<or> gmDeleteValueBridge w k h = Inr ((), h)"
  using assms by (auto simp: gmDeleteValueBridge_def)

lemma delete_present_key:
  assumes "has_own (gmStorage h) k" and "hasOwnProperty_callable (gmStorage h)"
  shows "\<exists>h'. gmDeleteValueBridge w k h = Inr ((), h') \<and> \<not> has_own (gmStorage h') k
           \<and> writes h' = writes h @ [own (gmStorage h')]
           \<and> (\<forall>k'. k' \<noteq> k \<longrightarrow> map_of (own (gmStorage h')) k' = map_of (own (gmStorage h)) k')"
  using assms
  by (auto simp: gmDeleteValueBridge_def saveGmStorage_def delete_property_def has_own_def
      delete_conv')

text \<open>
  Claim C8 fails on the code at the key \<open>__proto__\<close>.  On the empty store,
  \<open>gmSetValueBridge('__proto__', 'x')\<close> returns, writes the file and stores nothing:
  the assignment reaches the accessor of \<open>Object.prototype\<close>, which ignores a string.
  \<open>gmGetValueBridge('__proto__', 'd')\<close> then returns the default \<open>'d'\<close>, where the
  claim has it return \<open>'x'\<close>, and \<open>gmListValuesBridge()\<close> returns no key.
\<close>

theorem set_then_get_proto_key_returns_default:
  "(let h = storage_run True initial_host [SetValue ''__proto__'' (JStr ''x'')]
    in gmSetValueBridge True ''__proto__'' (JStr ''x'') initial_host = Inr ((), h)
       \<and> gmGetValueBridge ''__proto__'' (JStr ''d'') h = Inr (JStr ''d'', h)
       \<and> gmListValuesBridge h = Inr ([], h))"
  by (simp add: storage_run_def storage_step_def gmSetValueBridge_def gmGetValueBridge_def
      gmListValuesBridge_def saveGmStorage_def set_property_def initial_host_def
      empty_object_def has_own_def proto_setter_reachable_def isObjectValue_def
      hasOwnProperty_callable_def Object_keys_def)

text \<open>
  Claim C9 fails on the code once a value is stored under the key \<open>hasOwnProperty\<close>.
  After \<open>gmSetValueBridge('hasOwnProperty', 1)\<close> and \<open>gmSetValueBridge('a', 2)\<close> the
  key \<open>a\<close> is present, and \<open>gmDeleteValueBridge('a')\<close> throws a \<open>TypeError\<close>
  (\<open>gmStorage.hasOwnProperty\<close> is the number 1): the key is not removed and nothing is
  written, where the claim has the key removed and the write attempted.
\<close>

theorem delete_present_key_throws_when_shadowed:
  "(let h = storage_run True initial_host
              [SetValue ''hasOwnProperty'' (JNum 1), SetValue ''a'' (JNum 2)]
    in has_own (gmStorage h) ''a''
       \<and> gmDeleteValueBridge True ''a'' h = Inl TypeError
       \<and> gmGetValueBridge ''a'' (JStr ''d'') h = Inl TypeError)"
  by (simp add: storage_run_def storage_step_def gmSetValueBridge_def gmGetValueBridge_def
      gmDeleteValueBridge_def saveGmStorage_def set_property_def initial_host_def
      empty_object_def has_own_def hasOwnProperty_callable_def)

section \<open>Theorems: the regular expressions the compiler emits\<close>

text \<open>
  The source text that \<open>matchPatternToRegExp\<close> hands to the constructor is always
  within the fragment modelled: the escaping leaves \<open>*\<close> as the only character of a
  host or a path that the lexer does not read as a literal, and the rest is fixed text.
  So the body of the \<open>try\<close> block either returns or throws the constructor's
  \<open>SyntaxError\<close>.
\<close>

lemma lex_escaped_char:
  "lex Top ((if c \<in> set escaped_chars then [bs, c] else [c]) @ rest) = host_token c # lex Top rest"
  by (auto simp: escaped_chars_def syntaxChars_def host_token_def bs_def)

lemma lex_escaped:
  "lex Top (escapeRegex s @ rest) = map host_token s @ lex Top rest"
proof (induction s)
  case Nil
  show ?case by (simp add: escapeRegex_def)
next
  case (Cons c s)
  have "escapeRegex (c # s) @ rest =
          (if c \<in> set escaped_chars then [bs, c] else [c]) @ (escapeRegex s @ rest)"
    by (simp add: escapeRegex_def)
  then show ?case
    using lex_escaped_char [of c "escapeRegex s @ rest"] Cons.IH by simp
qed

lemma lex_path_char:
  "lex Top (replaceStars (if c \<in> set escaped_chars then [bs, c] else [c]) @ rest)
     = path_tokens c @ lex Top rest"
  by (auto simp: escaped_chars_def syntaxChars_def path_tokens_def bs_def replaceStars_def)

lemma replaceStars_append: "replaceStars (xs @ ys) = replaceStars xs @ replaceStars ys"
  by (simp add: replaceStars_def)

lemma lex_path:
  "lex Top (replaceStars (escapeRegex s) @ rest) = concat (map path_tokens s) @ lex Top rest"
proof (induction s)
  case Nil
  show ?case by (simp add: escapeRegex_def replaceStars_def)
next
  case (Cons c s)
  have "replaceStars (escapeRegex (c # s)) @ rest =
          replaceStars (if c \<in> set escaped_chars then [bs, c] else [c])
            @ (replaceStars (escapeRegex s) @ rest)"
    by (simp add: escapeRegex_def replaceStars_append)
  then show ?case
    using lex_path_char [of c "replaceStars (escapeRegex s) @ rest"] Cons.IH by simp
qed

lemma parse_plain:
  "list_all plain_token ts \<Longrightarrow> parse ts cur outer st \<noteq> Inl OutsideModel"
proof (induction ts arbitrary: cur outer st)
  case Nil
  show ?case by simp
next
  case (Cons t ts)
  then show ?case
    by (cases t) (auto simp: plain_token_def split: list.splits option.splits)
qed

lemma lexes_to_append:
  "lexes_to a ta \<Longrightarrow> lexes_to b tb \<Longrightarrow> lexes_to (a @ b) (ta @ tb)"
  by (simp add: lexes_to_def)

lemma lexes_to_escaped: "lexes_to (escapeRegex s) (map host_token s)"
  by (simp add: lexes_to_def lex_escaped)

lemma lexes_to_path: "lexes_to (replaceStars (escapeRegex s)) (concat (map path_tokens s))"
  by (simp add: lexes_to_def lex_path)

lemma plain_host_tokens: "list_all plain_token (map host_token s)"
  by (induction s) (auto simp: plain_token_def host_token_def)

lemma plain_path_tokens: "list_all plain_token (concat (map path_tokens s))"
  by (induction s) (auto simp: plain_token_def path_tokens_def)

lemma escapeRegex_Cons:
  "escapeRegex (c # t) =
     (if c \<in> set escaped_chars then bs # c # escapeRegex t else c # escapeRegex t)"
  by (simp add: escapeRegex_def)

lemma escaped_facts:
  "CHR ''*'' \<notin> set escaped_chars" "bs \<in> set escaped_chars" "CHR ''.'' \<in> set escaped_chars"
  "bs \<noteq> CHR ''*''" "bs \<noteq> CHR ''.''"
  by (simp_all add: escaped_chars_def bs_def)

lemma star_dot_prefix:
  assumes "startsWith (escapeRegex h) (''*'' @ [bs] @ ''.'')"
  shows "\<exists>h'. drop 3 (escapeRegex h) = escapeRegex h'"
proof (cases h)
  case Nil
  with assms show ?thesis by (simp add: startsWith_def escapeRegex_def)
next
  case (Cons c1 t1)
  note h = Cons
  from assms h have c1: "c1 = CHR ''*''" "c1 \<notin> set escaped_chars"
    using escaped_facts by (auto simp: startsWith_def escapeRegex_Cons split: if_splits)
  show ?thesis
  proof (cases t1)
    case Nil
    with h c1 assms show ?thesis
      by (simp add: startsWith_def escapeRegex_Cons escapeRegex_def)
  next
    case (Cons c2 t2)
    with h c1 assms have "c2 \<in> set escaped_chars"
      using escaped_facts by (auto simp: startsWith_def escapeRegex_Cons split: if_splits)
    with Cons h c1 have "drop 3 (escapeRegex h) = escapeRegex t2"
      by (simp add: escapeRegex_Cons)
    then show ?thesis by blast
  qed
qed

lemma scheme_lexes:
  "lexes_to ''https?'' [TChar CHR ''h'', TChar CHR ''t'', TChar CHR ''t'', TChar CHR ''p'',
                        TChar CHR ''s'', TQuest]"
  "lexes_to ''https'' [TChar CHR ''h'', TChar CHR ''t'', TChar CHR ''t'', TChar CHR ''p'',
                       TChar CHR ''s'']"
  "lexes_to ''http'' [TChar CHR ''h'', TChar CHR ''t'', TChar CHR ''t'', TChar CHR ''p'']"
  "lexes_to ''://'' [TChar CHR '':'', TChar CHR ''/'', TChar CHR ''/'']"
  "lexes_to ''^'' [TCaret]"
  "lexes_to ''$'' [TDollar]"
  "lexes_to ''(/.*)?'' [TOpen, TChar CHR ''/'', TDot, TStar, TClose, TQuest]"
  by (simp_all add: lexes_to_def bs_def)

lemma class_lexes:
  "lexes_to (''(?:[^'' @ [bs] @ ''/.]+'' @ [bs] @ ''.)?'')
     [TOpen, TNoneOf ''/.'', TPlus, TChar CHR ''.'', TClose, TQuest]"
  "lexes_to (''[^'' @ [bs] @ ''/]+'') [TNoneOf ''/'', TPlus]"
  by (simp_all add: lexes_to_def bs_def syntaxChars_def)

lemma hostRegex_lexes:
  assumes "hostRegex_of host = Some hr"
  shows "\<exists>ts. lexes_to hr ts \<and> list_all plain_token ts"
proof -
  consider (sub) "startsWith (escapeRegex host) (''*'' @ [bs] @ ''.'')"
    | (any) "\<not> startsWith (escapeRegex host) (''*'' @ [bs] @ ''.'')" "escapeRegex host = ''*''"
    | (lit) "\<not> startsWith (escapeRegex host) (''*'' @ [bs] @ ''.'')" "escapeRegex host \<noteq> ''*''"
    by blast
  then show ?thesis
  proof cases
    case sub
    then obtain h' where h': "drop 3 (escapeRegex host) = escapeRegex h'"
      using star_dot_prefix by blast
    from sub assms have "hr = (''(?:[^'' @ [bs] @ ''/.]+'' @ [bs] @ ''.)?'') @ escapeRegex h'"
      by (simp add: hostRegex_of_def Let_def h')
    then have "lexes_to hr ([TOpen, TNoneOf ''/.'', TPlus, TChar CHR ''.'', TClose, TQuest] @ map host_token h')"
      using lexes_to_append [OF class_lexes(1) lexes_to_escaped [of h']] by simp
    moreover have "list_all plain_token ([TOpen, TNoneOf ''/.'', TPlus, TChar CHR ''.'', TClose, TQuest] @ map host_token h')"
      using plain_host_tokens [of h'] by (simp add: plain_token_def)
    ultimately show ?thesis by blast
  next
    case any
    with assms have "hr = ''[^'' @ [bs] @ ''/]+''"
      by (simp add: hostRegex_of_def Let_def)
    then have "lexes_to hr [TNoneOf ''/'', TPlus]"
      using class_lexes(2) by simp
    then show ?thesis by (auto simp: plain_token_def)
  next
    case lit
    with assms have "hr = escapeRegex host"
      by (simp add: hostRegex_of_def Let_def split: if_splits)
    then show ?thesis
      using lexes_to_escaped [of host] plain_host_tokens [of host] by auto
  qed
qed

lemma pathRegex_lexes: "\<exists>ts. lexes_to (pathRegex_of pp) ts \<and> list_all plain_token ts"
proof (cases pp)
  case None
  then show ?thesis
    using scheme_lexes(7) by (auto simp: pathRegex_of_def plain_token_def)
next
  case (Some p)
  then show ?thesis
    using lexes_to_path [of p] plain_path_tokens [of p] by (auto simp: pathRegex_of_def)
qed

lemma RegExp_new_anchored:
  assumes "lexes_to mid ts" and "list_all plain_token ts"
  shows "RegExp_new (''^'' @ mid @ ''$'') \<noteq> Inl OutsideModel"
proof -
  have "lexes_to (''^'' @ mid @ ''$'') ([TCaret] @ ts @ [TDollar])"
    by (intro lexes_to_append scheme_lexes assms(1))
  then have "lex Top ((''^'' @ mid @ ''$'') @ []) = ([TCaret] @ ts @ [TDollar]) @ lex Top []"
    unfolding lexes_to_def by (rule spec)
  then have "lex Top (''^'' @ mid @ ''$'') = TCaret # ts @ [TDollar]"
    by simp
  then show ?thesis
    using parse_plain [OF assms(2), of "[]" "[]" NoAtom]
    by (auto simp: RegExp_new_def Let_def split: sum.splits)
qed

lemma match_groups_scheme:
  assumes "match_groups p = Some (sch, host, pp)"
  shows "sch = ''*'' \<or> sch = ''https'' \<or> sch = ''http''"
  using assms
  by (auto simp: match_groups_def match_scheme_def Let_def split: if_splits option.splits)

lemma try_body_within_model: "matchPatternToRegExp_try pattern \<noteq> Inl OutsideModel"
proof (cases "match_groups pattern")
  case None
  then show ?thesis by (simp add: matchPatternToRegExp_try_def)
next
  case (Some g)
  obtain sch host pp where g: "g = (sch, host, pp)" by (cases g) auto
  show ?thesis
  proof (cases "hostRegex_of host")
    case None
    with Some g show ?thesis by (simp add: matchPatternToRegExp_try_def)
  next
    case (Some hr)
    obtain hts where hts: "lexes_to hr hts" "list_all plain_token hts"
      using hostRegex_lexes [OF Some] by blast
    obtain pts where pts: "lexes_to (pathRegex_of pp) pts" "list_all plain_token pts"
      using pathRegex_lexes by blast
    let ?sr = "if sch = ''*'' then ''https?'' else sch"
    have "\<exists>sts. lexes_to ?sr sts \<and> list_all plain_token sts"
      using match_groups_scheme [of pattern sch host pp] \<open>match_groups pattern = Some g\<close> g
            scheme_lexes(1,2,3)
      by (auto simp: plain_token_def)
    then obtain sts where sts: "lexes_to ?sr sts" "list_all plain_token sts" by blast
    have "lexes_to (?sr @ ''://'' @ hr @ pathRegex_of pp)
            (sts @ [TChar CHR '':'', TChar CHR ''/'', TChar CHR ''/''] @ hts @ pts)"
      by (intro lexes_to_append sts(1) scheme_lexes(4) hts(1) pts(1))
    moreover have "list_all plain_token (sts @ [TChar CHR '':'', TChar CHR ''/'', TChar CHR ''/''] @ hts @ pts)"
      using sts(2) hts(2) pts(2) by (simp add: plain_token_def)
    ultimately have "RegExp_new (''^'' @ (?sr @ ''://'' @ hr @ pathRegex_of pp) @ ''$'') \<noteq> Inl OutsideModel"
      by (rule RegExp_new_anchored)
    with Some \<open>match_groups pattern = Some g\<close> g show ?thesis
      by (auto simp: matchPatternToRegExp_try_def Let_def split: sum.splits)
  qed
qed

section \<open>Theorems: the match-pattern compiler and URL matching\<close>

text \<open>
  The \<open>try\<close> block does throw: for the host \<open>*.*.com\<close> the regular expression
  source has \<open>*\<close> right after \<open>?\<close>, and the constructor refuses it.
\<close>

lemma try_body_can_throw: "matchPatternToRegExp_try ''*://*.*.com/*'' = Inl SyntaxError"
  by code_simp

text \<open>
  Claim C7.  For every pattern string, \<open>matchPatternToRegExp\<close> returns: either a
  regular expression, or \<open>null\<close>, its outcome for an invalid pattern.  It throws
  nothing (its result is never \<open>Inl\<close>), also where the body of its \<open>try\<close> block
  throws.
\<close>

theorem matchPatternToRegExp_total:
  "(\<exists>re. matchPatternToRegExp pattern = Inr (Some re)) \<or> matchPatternToRegExp pattern = Inr None"
  by (cases "matchPatternToRegExp_try pattern")
     (auto simp: matchPatternToRegExp_def split: option.splits)

theorem matchPatternToRegExp_total_witness:
  "matchPatternToRegExp_try ''*://*.*.com/*'' = Inl SyntaxError
   \<and> matchPatternToRegExp ''*://*.*.com/*'' = Inr None
   \<and> matchPatternToRegExp ''<all_urls>'' = Inr (Some all_urls_regex)"
  using matchPatternToRegExp_total [of "''*://*.*.com/*''"]
        matchPatternToRegExp_total [of "''<all_urls>''"] try_body_can_throw
  by (simp add: matchPatternToRegExp_def)

text \<open>
  Claim C10.  For every list of patterns and every string that \<open>new URL\<close> refuses, or
  that parses to a URL whose protocol is neither \<open>http:\<close> nor \<open>https:\<close>,
  \<open>urlMatches\<close> returns \<open>false\<close>; it does not throw.
\<close>

theorem urlMatches_rejects_unparseable_and_foreign:
  assumes "(\<exists>e. new_URL urlString = Inl e)
           \<or> (\<exists>parsed. new_URL urlString = Inr parsed \<and> protocol parsed \<noteq> ''http:''
                  \<and> protocol parsed \<noteq> ''https:'')"
  shows "urlMatches new_URL patterns urlString = Inr False"
  using assms by (auto simp: urlMatches_def)

theorem urlMatches_rejects_witness:
  "example_URL ''not a url'' = Inl TypeError
   \<and> urlMatches example_URL [''<all_urls>''] ''not a url'' = Inr False
   \<and> map_sum id protocol (example_URL ''ftp://a.b/'') = Inr ''ftp:''
   \<and> urlMatches example_URL [''<all_urls>''] ''ftp://a.b/'' = Inr False"
  using urlMatches_rejects_unparseable_and_foreign [of example_URL "''not a url''" "[''<all_urls>'']"]
        urlMatches_rejects_unparseable_and_foreign [of example_URL "''ftp://a.b/''" "[''<all_urls>'']"]
  by (simp add: example_URL_def)

text \<open>
  The three examples of claim C3 hold on the code: \<open>*://*.example.com/*\<close> matches
  the hosts \<open>a.example.com\<close> and \<open>example.com\<close>, and not \<open>example.com.evil.com\<close>.
\<close>

lemma star_dot_host_examples:
  "urlMatches example_URL [''*://*.example.com/*''] ''https://a.example.com/'' = Inr True"
  "urlMatches example_URL [''*://*.example.com/*''] ''https://example.com/'' = Inr True"
  "urlMatches example_URL [''*://*.example.com/*''] ''https://example.com.evil.com/'' = Inr False"
  by code_simp+

text \<open>
  Claim C3 fails on the code for a subdomain chain of two labels.  The compiler emits
  \<open>(?:[^\/.]+\.)?\<close> for the prefix \<open>*.\<close>: at most one label, which holds no dot.
  So \<open>*://*.example.com/*\<close> does not match \<open>https://a.b.example.com/\<close>, where the
  claim has every non-empty chain of labels in front of the suffix accepted.
\<close>

theorem star_dot_host_rejects_two_labels:
  "urlMatches example_URL [''*://*.example.com/*''] ''https://a.b.example.com/'' = Inr False"
  by code_simp

section \<open>Theorems: the catalog and the injection plan\<close>

lemma matchPatternToRegExp_returns: "\<exists>r. matchPatternToRegExp pattern = Inr r"
  by (cases "matchPatternToRegExp_try pattern") (auto simp: matchPatternToRegExp_def)

lemma matches_any_returns: "\<exists>b. matches_any patterns u = Inr b"
proof (induction patterns)
  case Nil
  show ?case by auto
next
  case (Cons p ps)
  obtain r where "matchPatternToRegExp p = Inr r"
    using matchPatternToRegExp_returns by blast
  with Cons show ?case by (cases r) auto
qed


lemma urlMatches_returns: "\<exists>b. urlMatches new_URL patterns u = Inr b"
  using matches_any_returns by (auto simp: urlMatches_def split: sum.splits)


lemma schedule_valid:
  assumes "runAt s \<in> set validRunAt"
  shows "schedule new_URL u s pl =
     Inr (if urlMatches new_URL (matchPatterns s) u = Inr True then
            \<lparr>document_start = document_start pl @ (if runAt s = ''document-start'' then [s] else []),
             document_end = document_end pl @ (if runAt s = ''document-end'' then [s] else []),
             document_idle = document_idle pl @ (if runAt s = ''document-idle'' then [s] else [])\<rparr>
          else pl)"
proof -
  obtain b where b: "urlMatches new_URL (matchPatterns s) u = Inr b"
    using urlMatches_returns by blast
  show ?thesis
    using assms b by (cases b) (auto simp: schedule_def validRunAt_def)
qed

lemma schedule_all_valid:
  assumes "\<forall>s \<in> set ss. runAt s \<in> set validRunAt"
  shows "schedule_all new_URL u ss pl =
     Inr \<lparr>document_start = document_start pl @ hits new_URL u ''document-start'' ss,
          document_end = document_end pl @ hits new_URL u ''document-end'' ss,
          document_idle = document_idle pl @ hits new_URL u ''document-idle'' ss\<rparr>"
  using assms
proof (induction ss arbitrary: pl)
  case Nil
  show ?case by (simp add: hits_def)
next
  case (Cons s ss)
  then show ?case
    by (simp add: schedule_valid hits_def)
qed

lemma valid_or_default:
  "(if x \<in> set validRunAt then x else ''document-start'') \<in> set validRunAt"
  by (simp add: validRunAt_def)

lemma document_start_valid: "''document-start'' \<in> set validRunAt"
  by (simp add: validRunAt_def)

lemma parseMetadata_runAt_valid:
  assumes "parseMetadata t = Inr md"
  shows "md_runAt md \<in> set validRunAt"
proof (cases "metaBlock t")
  case None
  with assms show ?thesis
    by (auto simp: parseMetadata_def document_start_valid simp del: set_simps)
next
  case (Some block)
  show ?thesis
  proof (cases "read_lines (split CHR 0x0A (trim block)) []")
    case (Inl e)
    with Some assms show ?thesis by (simp add: parseMetadata_def)
  next
    case (Inr props)
    with Some assms obtain x where "md_runAt md = (if x \<in> set validRunAt then x else ''document-start'')"
      by (auto simp: parseMetadata_def Let_def simp del: set_simps)
    then show ?thesis
      using valid_or_default by simp
  qed
qed

lemma load_file_append: "load_file fs d f scripts = scripts @ load_file fs d f []"
  by (simp add: load_file_def Let_def split: sum.splits)

lemma load_file_length: "length (load_file fs d f []) \<le> 1"
  by (simp add: load_file_def Let_def split: sum.splits)

lemma load_file_member:
  assumes "s \<in> set (load_file fs d f [])"
  shows "endsWith f ''.user.js'' \<and> path s = path_join d f
         \<and> readFile fs (path s) = Inr (content s)
         \<and> parseMetadata (content s) = Inr (meta s)
         \<and> md_match (meta s) \<noteq> []
         \<and> matchPatterns s = md_match (meta s)
         \<and> runAt s = md_runAt (meta s)"
  using assms
  by (auto simp: load_file_def Let_def split: sum.splits if_splits)

lemma load_all:
  "foldl (\<lambda>scripts file. load_file fs d file scripts) acc files =
     acc @ concat (map (\<lambda>f. load_file fs d f []) files)"
proof (induction files arbitrary: acc)
  case Nil
  show ?case by simp
next
  case (Cons f fs')
  show ?case
    by (simp add: Cons.IH [of "load_file fs d f acc"]) (simp add: load_file_append [of fs d f acc])
qed

lemma path_join_inj: "path_join d f = path_join d f' \<Longrightarrow> f = f'"
  by (simp add: path_join_def)

lemma loaded_paths:
  assumes "s \<in> set (concat (map (\<lambda>f. load_file fs d f []) files))"
  shows "\<exists>f \<in> set files. s \<in> set (load_file fs d f []) \<and> path s = path_join d f"
proof -
  from assms obtain f where f: "f \<in> set files" "s \<in> set (load_file fs d f [])"
    by auto
  with load_file_member [OF f(2)] show ?thesis by blast
qed

lemma loaded_distinct:
  "distinct files \<Longrightarrow> distinct (map path (concat (map (\<lambda>f. load_file fs d f []) files)))"
proof (induction files)
  case Nil
  show ?case by simp
next
  case (Cons f fs')
  let ?rest = "concat (map (\<lambda>f. load_file fs d f []) fs')"
  have one: "distinct (map path (load_file fs d f []))"
    using load_file_length [of fs d f] by (cases "load_file fs d f []") auto
  have apart: "path s \<noteq> path s'" if s: "s \<in> set (load_file fs d f [])" and s': "s' \<in> set ?rest" for s s'
  proof -
    from loaded_paths [OF s'] obtain f' where f': "f' \<in> set fs'" "path s' = path_join d f'"
      by blast
    from load_file_member [OF s] have "path s = path_join d f" by simp
    moreover have "f \<noteq> f'" using Cons.prems f'(1) by auto
    ultimately show ?thesis using f'(2) path_join_inj by metis
  qed
  have "distinct (map path ?rest)" using Cons by simp
  with one apart show ?case
    by (auto simp: distinct_map inj_on_def)
qed

lemma loaded_catalog:
  assumes "loadUserscripts fs d = Inr catalog"
  shows "(\<exists>files. readdir fs = Inr files \<and> catalog = concat (map (\<lambda>f. load_file fs d f []) files))
         \<or> ((readdir fs = Inl ENOENT \<or> readdir fs = Inl EACCES) \<and> catalog = [])"
  using assms
  by (auto simp: loadUserscripts_def load_all [of fs d "[]", simplified] split: sum.splits fs_error.splits)

lemma catalog_member:
  assumes "loadUserscripts fs d = Inr catalog" and "s \<in> set catalog"
  shows "\<exists>f. s \<in> set (load_file fs d f []) \<and> path s = path_join d f"
proof -
  from loaded_catalog [OF assms(1)] assms(2)
  obtain files where "catalog = concat (map (\<lambda>f. load_file fs d f []) files)"
    by auto
  with assms(2) loaded_paths [of s fs d files] show ?thesis by blast
qed

lemma catalog_runAt_valid:
  assumes "loadUserscripts fs d = Inr catalog" and "s \<in> set catalog"
  shows "runAt s \<in> set validRunAt"
proof -
  from catalog_member [OF assms] obtain f where "s \<in> set (load_file fs d f [])" by blast
  from load_file_member [OF this] show ?thesis
    using parseMetadata_runAt_valid by metis
qed

lemma catalog_distinct:
  assumes "loadUserscripts fs d = Inr catalog" and "readdir fs = Inr files" and "distinct files"
  shows "distinct catalog"
proof -
  from loaded_catalog [OF assms(1)] assms(2)
  have "catalog = concat (map (\<lambda>f. load_file fs d f []) files)" by auto
  with loaded_distinct [OF assms(3), of fs d] show ?thesis
    by (simp add: distinct_map)
qed

lemma catalog_plan:
  assumes "loadUserscripts fs d = Inr catalog"
  shows "scriptsToInject new_URL catalog u =
           Inr \<lparr>document_start = hits new_URL u ''document-start'' catalog,
                document_end = hits new_URL u ''document-end'' catalog,
                document_idle = hits new_URL u ''document-idle'' catalog\<rparr>"
  using schedule_all_valid [of catalog new_URL u empty_plan] catalog_runAt_valid [OF assms]
  by (simp add: scriptsToInject_def empty_plan_def)

text \<open>
  Claim C6.  For every catalog that \<open>loadUserscripts\<close> returns and every target
  address, \<open>scriptsToInject\<close> is built without an exception, and each of its three
  phases is the catalog filtered, in catalog order, to the scripts that match the address
  (\<open>urlMatches\<close> returns \<open>true\<close>) and whose \<open>runAt\<close> is that phase.  So a
  matching script stands in the phase of its own \<open>runAt\<close>, which is one of the three,
  and in no other; it stands there as often as in the catalog, however many of its
  patterns match; and the catalog holds no script twice when the directory lists no file
  twice.
\<close>

theorem injection_plan_partition:
  assumes "loadUserscripts fs directory = Inr catalog"
  shows "scriptsToInject new_URL catalog targetUrl =
           Inr \<lparr>document_start = hits new_URL targetUrl ''document-start'' catalog,
                document_end = hits new_URL targetUrl ''document-end'' catalog,
                document_idle = hits new_URL targetUrl ''document-idle'' catalog\<rparr>
         \<and> (\<forall>s \<in> set catalog. runAt s \<in> set validRunAt)
         \<and> (\<forall>files. readdir fs = Inr files \<and> distinct files \<longrightarrow> distinct catalog)"
  using catalog_plan [OF assms] catalog_runAt_valid [OF assms] catalog_distinct [OF assms]
  by blast

lemma example_catalog_loaded: "loadUserscripts example_fs ''scripts'' = Inr example_catalog"
  by (simp add: example_catalog_def loadUserscripts_def example_fs_def)

theorem injection_plan_partition_witness:
  "loadUserscripts example_fs ''scripts'' = Inr example_catalog
   \<and> matches_any [''*://example.com/*''] ''https://example.com/'' = Inr True
   \<and> matches_any [''https://*.example.com/*''] ''https://example.com/'' = Inr True
   \<and> map_sum id (\<lambda>pl. (map name (document_start pl), map name (document_end pl),
                         map name (document_idle pl)))
        (scriptsToInject example_URL example_catalog ''https://example.com/'')
      = Inr ([], [''Two''], [])"
proof -
  have "map name (hits example_URL ''https://example.com/'' ''document-start'' example_catalog) = []"
       "map name (hits example_URL ''https://example.com/'' ''document-end'' example_catalog) = [''Two'']"
       "map name (hits example_URL ''https://example.com/'' ''document-idle'' example_catalog) = []"
    by code_simp+
  moreover have "matches_any [''*://example.com/*''] ''https://example.com/'' = Inr True"
                "matches_any [''https://*.example.com/*''] ''https://example.com/'' = Inr True"
    by code_simp+
  ultimately show ?thesis
    using injection_plan_partition [OF example_catalog_loaded, of example_URL "''https://example.com/''"]
          example_catalog_loaded
    by simp
qed





section \<open>Theorems: GM_xmlhttpRequest\<close>

text \<open>What one event changes of the page.\<close>

lemma call_back_effect:
  "requestMap (call_back d i cb arg pg) = requestMap pg"
  "requestIdCounter (call_back d i cb arg pg) = requestIdCounter pg"
  "bridge_calls (call_back d i cb arg pg) = bridge_calls pg"
  "delivered (call_back d i cb arg pg) =
     delivered pg @ (if cb \<in> set (handlers d) then [(i, cb, arg)] else [])"
  by (simp_all add: call_back_def)

lemma handler_unknown:
  assumes "map_of (requestMap pg) i = None"
  shows "GM_xmlhttpRequest_callback_handler i ev rd pg =
           pg\<lparr>console := console pg @ [''warn: Received callback for unknown GM_xmlhttpRequest ID'']\<rparr>"
  using assms by (simp add: GM_xmlhttpRequest_callback_handler_def)

lemma handler_known:
  assumes "map_of (requestMap pg) i = Some d"
  shows "requestIdCounter (GM_xmlhttpRequest_callback_handler i ev rd pg) = requestIdCounter pg"
    and "bridge_calls (GM_xmlhttpRequest_callback_handler i ev rd pg) = bridge_calls pg"
    and "requestMap (GM_xmlhttpRequest_callback_handler i ev rd pg) =
           (if undecodable rd \<or> ev \<in> set terminalEvents
            then AList.delete i (requestMap pg) else requestMap pg)"
    and "delivered (GM_xmlhttpRequest_callback_handler i ev rd pg) =
           delivered pg @
             (if undecodable rd
              then (if ''onerror'' \<in> set (handlers d)
                    then [(i, ''onerror'', rd\<lparr>status := 0, statusText := ''Decoding Error''\<rparr>)]
                    else [])
              else (if ev \<in> set (handlers d) then [(i, ev, with_responseText rd)] else []))"
  using assms
  by (simp_all add: GM_xmlhttpRequest_callback_handler_def Let_def call_back_effect)

lemma issue_fields:
  "fst (GM_xmlhttpRequest d pg) =
     (if truthy (url d) then AbortHandle (Suc (requestIdCounter pg))
      else InvalidRequestHandle (Suc (requestIdCounter pg)))"
  "requestIdCounter (snd (GM_xmlhttpRequest d pg)) = Suc (requestIdCounter pg)"
  "requestMap (snd (GM_xmlhttpRequest d pg)) =
     (if truthy (url d) then AList.update (Suc (requestIdCounter pg)) d (requestMap pg)
      else AList.delete (Suc (requestIdCounter pg))
             (AList.update (Suc (requestIdCounter pg)) d (requestMap pg)))"
  "bridge_calls (snd (GM_xmlhttpRequest d pg)) =
     bridge_calls pg @ (if truthy (url d) then [(Suc (requestIdCounter pg), d)] else [])"
  "delivered (snd (GM_xmlhttpRequest d pg)) =
     delivered pg @
       (if \<not> truthy (url d) \<and> ''onerror'' \<in> set (handlers d)
        then [(Suc (requestIdCounter pg), ''onerror'', failure_data ''Invalid Request'')] else [])"
  by (simp_all add: GM_xmlhttpRequest_def Let_def call_back_effect)

lemma abort_effect:
  "requestIdCounter (abort h pg) = requestIdCounter pg"
  "requestMap (abort h pg) = requestMap pg"
  "bridge_calls (abort h pg) = bridge_calls pg"
  "delivered (abort h pg) = delivered pg"
  by (cases h; simp add: abort_def Let_def)+

lemma rejected_unknown:
  assumes "map_of (bridge_calls pg) i = None"
  shows "bridge_rejected i pg = pg"
  using assms by (simp add: bridge_rejected_def)

lemma rejected_known:
  assumes "map_of (bridge_calls pg) i = Some d"
  shows "requestIdCounter (bridge_rejected i pg) = requestIdCounter pg"
    and "bridge_calls (bridge_rejected i pg) = bridge_calls pg"
    and "requestMap (bridge_rejected i pg) = AList.delete i (requestMap pg)"
    and "delivered (bridge_rejected i pg) =
           delivered pg @
             (if ''onerror'' \<in> set (handlers d)
              then [(i, ''onerror'', failure_data ''Bridge Error'')] else [])"
  using assms by (simp_all add: bridge_rejected_def Let_def call_back_effect)







lemma abort_same: "same_but_console (abort h pg) pg"
  by (cases h) (simp_all add: abort_def same_but_console_def Let_def)

lemma step_same:
  assumes "same_but_console pg pg'"
  shows "same_but_console (page_step pg ev) (page_step pg' ev)"
proof -
  from assms have eq: "requestMap pg = requestMap pg'" "requestIdCounter pg = requestIdCounter pg'"
      "bridge_calls pg = bridge_calls pg'" "delivered pg = delivered pg'"
    by (simp_all add: same_but_console_def)
  show ?thesis
  proof (cases ev)
    case (Issue d)
    with eq show ?thesis
      by (simp add: page_step_def same_but_console_def issue_fields)
  next
    case (UseAbort h)
    with eq show ?thesis
      by (simp add: page_step_def same_but_console_def abort_effect)
  next
    case (Handler i eventName rd)
    show ?thesis
    proof (cases "map_of (requestMap pg) i")
      case None
      with eq Handler show ?thesis
        by (simp add: page_step_def same_but_console_def handler_unknown)
    next
      case (Some d)
      with eq Handler show ?thesis
        by (simp add: page_step_def same_but_console_def handler_known [where d = d])
    qed
  next
    case (Rejected i)
    show ?thesis
    proof (cases "map_of (bridge_calls pg) i")
      case None
      with eq Rejected show ?thesis
        by (simp add: page_step_def same_but_console_def rejected_unknown)
    next
      case (Some d)
      with eq Rejected show ?thesis
        by (simp add: page_step_def same_but_console_def rejected_known [where d = d])
    qed
  qed
qed

lemma run_same:
  "same_but_console pg pg' \<Longrightarrow> same_but_console (page_run pg evs) (page_run pg' evs)"
  unfolding page_run_def
  by (induction evs arbitrary: pg pg') (auto intro: step_same)

lemma page_run_append: "page_run pg (xs @ ys) = page_run (page_run pg xs) ys"
  by (simp add: page_run_def)

text \<open>
  The abort handle.  Using it changes nothing but the console: whatever happens before
  and after, the page ends with the same \<open>requestMap\<close>, counter, bridge calls and
  callback calls as without the use of the handle.  So the events the caller receives
  for a request are those the host sends for it, aborted or not.
\<close>

lemma abort_handle_changes_nothing:
  "same_but_console (page_run pg (before @ UseAbort h # after)) (page_run pg (before @ after))"
proof -
  have "page_run pg (before @ UseAbort h # after) = page_run (abort h (page_run pg before)) after"
    by (simp add: page_run_def page_step_def)
  moreover have "page_run pg (before @ after) = page_run (page_run pg before) after"
    by (rule page_run_append)
  ultimately show ?thesis
    using run_same [OF abort_same] by simp
qed

lemma abort_handle_changes_nothing_example:
  "delivered (page_run initial_page
                ([Issue plain_request] @ UseAbort (AbortHandle 1) # host_events 1 plain_request slow_server))
   = delivered (page_run initial_page ([Issue plain_request] @ host_events 1 plain_request slow_server))"
  using abort_handle_changes_nothing
          [of initial_page "[Issue plain_request]" "AbortHandle 1" "host_events 1 plain_request slow_server"]
  by (simp add: same_but_console_def)

text \<open>
  Claim C1 fails on the code, and the code says otherwise itself.  The comments of the
  method \<open>abort\<close> say that it informs the bridge and that, for now, it triggers
  \<open>onabort\<close> locally while the request is pending; the host keeps an
  \<open>AbortController\<close> for each request and maps an \<open>AbortError\<close> to \<open>onabort\<close>,
  for a manual abort too by its comment.  The method does neither: the local trigger is
  commented out, and no function of the host is called.

  The failing run: a request is issued on the initial page and its abort handle is used
  before any event.  No callback is called, no further bridge call is made, and the
  request is still pending.  The host, which has heard of no abort, then completes the
  request, and the one event the caller receives is \<open>onload\<close>, not \<open>onabort\<close>.
\<close>

theorem abort_before_completion_delivers_onload:
  "fst (GM_xmlhttpRequest plain_request initial_page) = AbortHandle 1
   \<and> events_of 1 (page_run initial_page [Issue plain_request, UseAbort (AbortHandle 1)]) = []
   \<and> bridge_calls (page_run initial_page [Issue plain_request, UseAbort (AbortHandle 1)])
       = [(1, plain_request)]
   \<and> map_of (requestMap (page_run initial_page [Issue plain_request, UseAbort (AbortHandle 1)])) 1
       = Some plain_request
   \<and> events_of 1 (page_run initial_page
                     ([Issue plain_request, UseAbort (AbortHandle 1)]
                      @ host_events 1 plain_request slow_server))
       = [''onload'']"
  by (simp add: plain_request_def slow_server_def truthy_def
        initial_page_def page_run_def page_step_def host_events_def GM_xmlhttpRequest_bridge_def
        timer_fires_def sendCallback_def GM_xmlhttpRequest_def GM_xmlhttpRequest_callback_handler_def abort_def
        call_back_def events_of_def terminalEvents_def Let_def undecodable_def binary_text_def
        with_responseText_def isString_def effectiveContentType_def
        effectiveResponseType_def or_else_def knownResponseTypes_def startsWith_def)













lemma handler_terminal:
  assumes "map_of (requestMap pg) i = Some d" and "rd_responseType rd = None"
    and "ev \<in> set terminalEvents" and "ev \<in> set (handlers d)"
  shows "delivered (GM_xmlhttpRequest_callback_handler i ev rd pg) = delivered pg @ [(i, ev, rd)]"
    and "map_of (requestMap (GM_xmlhttpRequest_callback_handler i ev rd pg)) i = None"
    and "requestIdCounter (GM_xmlhttpRequest_callback_handler i ev rd pg) = requestIdCounter pg"
  using assms
  by (simp_all add: handler_known [where d = d] undecodable_def binary_text_def
        with_responseText_def delete_conv')

subsection \<open>Requests with a timeout\<close>







text \<open>
  A timeout of at least one millisecond that is smaller than the latency has a timer
  delay smaller than the latency.
\<close>

lemma delay_below_latency:
  assumes "1 \<le> q" and "q < of_nat l"
  shows "timer_delay (Finite q) < l"
proof (cases "q \<le> 2147483647")
  case True
  have "\<lfloor>q\<rfloor> < int l"
    using assms(2) by (simp add: floor_less_iff)
  moreover have "0 \<le> \<lfloor>q\<rfloor>"
    using assms(1) by simp
  ultimately have "nat \<lfloor>q\<rfloor> < l" by linarith
  with True assms(1) show ?thesis by simp
next
  case False
  with assms(2) have "(1::rat) < of_nat l" by simp
  then have "1 < l" by simp
  with False show ?thesis by simp
qed




text \<open>
  A timeout of -1 is smaller than any latency too, and its timer is armed, with a delay
  of 1 millisecond.  Where \<open>fetch\<close> rejects at once, the caller receives
  \<open>onerror\<close>.
\<close>

lemma negative_timeout_example:
  "timeout negative_timeout_request = Number (Finite (- 1))
   \<and> (- 1::rat) < of_nat (latency failing_network)
   \<and> timer_delay (toNumber (timeout negative_timeout_request)) = 1
   \<and> events_of 1 (page_run initial_page
                     (Issue negative_timeout_request
                        # host_events 1 negative_timeout_request failing_network))
       = [''onerror'']"
  by (simp add: negative_timeout_request_def plain_request_def failing_network_def slow_server_def
        truthy_def initial_page_def page_run_def page_step_def host_events_def
        GM_xmlhttpRequest_bridge_def timer_fires_def sendCallback_def GM_xmlhttpRequest_def
        GM_xmlhttpRequest_callback_handler_def call_back_def events_of_def terminalEvents_def
        Let_def undecodable_def binary_text_def with_responseText_def isString_def
        failure_data_def)


end
